theory Spec2Isabelle
  imports Main
begin

section \<open>Strings and the Unicode library\<close>

text \<open>
  A Go string is modelled by the sequence of runes (code points) that a
  \<^verbatim>\<open>for i, r := range s\<close> loop yields, and a written buffer by the sequence of
  runes passed to \<^verbatim>\<open>WriteRune\<close>. String literals of the source are written
  \<open>str ''...''\<close>.
\<close>

type_synonym rune = nat
type_synonym gostring = "rune list"

definition str :: "string \<Rightarrow> gostring" where
  "str cs = map of_char cs"

text \<open>
  The width of a rune in the UTF-8 encoding: the amount by which the byte offset
  \<^verbatim>\<open>i\<close> of a \<^verbatim>\<open>range\<close> loop advances.
\<close>

definition runeWidth :: "rune \<Rightarrow> nat" where
  "runeWidth r = (if r < 128 then 1 else if r < 2048 then 2 else if r < 65536 then 3 else 4)"

text \<open>
  The functions of Go's \<^verbatim>\<open>unicode\<close> package and of \<^verbatim>\<open>golang.org/x/text\<close> that
  the transformer calls are not part of the repository. They are a parameter of
  the model: \<open>IsUpper\<close>, \<open>IsLetter\<close>, \<open>IsNumber\<close>, \<open>ToLower\<close>, \<open>ToUpper\<close> are the
  functions of package \<^verbatim>\<open>unicode\<close>, \<open>IsMn\<close> is membership in the range table
  \<^verbatim>\<open>unicode.Mn\<close>, and \<open>NFD\<close>, \<open>NFC\<close> are the two normalisation forms of
  \<^verbatim>\<open>norm\<close> as functions on whole strings.
\<close>

record unicode =
  IsUpper :: "rune \<Rightarrow> bool"
  IsLetter :: "rune \<Rightarrow> bool"
  IsNumber :: "rune \<Rightarrow> bool"
  IsMn :: "rune \<Rightarrow> bool"
  ToLower :: "rune \<Rightarrow> rune"
  ToUpper :: "rune \<Rightarrow> rune"
  NFD :: "gostring \<Rightarrow> gostring"
  NFC :: "gostring \<Rightarrow> gostring"

section \<open>Naming transformation (transform.go)\<close>

text \<open>
  \<^verbatim>\<open>toLowerSnakeCase\<close>: the loop over the runes of \<open>s\<close>, with its three variables
  (the byte offset \<open>i\<close>, \<open>lastWasUpper\<close> and the buffer).
\<close>

fun snakeLoop :: "unicode \<Rightarrow> nat \<Rightarrow> bool \<Rightarrow> gostring \<Rightarrow> gostring \<Rightarrow> gostring" where
  "snakeLoop U i lastWasUpper buf [] = buf"
| "snakeLoop U i lastWasUpper buf (r # rs) =
     snakeLoop U (i + runeWidth r) (IsUpper U r)
       ((if IsUpper U r \<and> i \<noteq> 0 \<and> \<not> lastWasUpper then buf @ str ''_'' else buf)
          @ [ToLower U r])
       rs"

definition toLowerSnakeCase :: "unicode \<Rightarrow> gostring \<Rightarrow> gostring" where
  "toLowerSnakeCase U s = snakeLoop U 0 False [] s"

text \<open>\<^verbatim>\<open>strings.ToUpper\<close> maps \<^verbatim>\<open>unicode.ToUpper\<close> over the runes of its argument.\<close>

definition strings_ToUpper :: "unicode \<Rightarrow> gostring \<Rightarrow> gostring" where
  "strings_ToUpper U s = map (ToUpper U) s"

definition toUpperSnakeCase :: "unicode \<Rightarrow> gostring \<Rightarrow> gostring" where
  "toUpperSnakeCase U s = strings_ToUpper U (toLowerSnakeCase U s)"

text \<open>
  \<^verbatim>\<open>toProtobufPkg\<close>: \<^verbatim>\<open>strings.Map\<close> with the rune function below, removal of every
  space, then the chain NFD, removal of the runes in \<^verbatim>\<open>unicode.Mn\<close>, NFC.
\<close>

definition pkgRune :: "unicode \<Rightarrow> rune \<Rightarrow> rune" where
  "pkgRune U r =
     (if r = of_char CHR ''/'' \<or> r = of_char CHR ''.'' then of_char CHR ''.''
      else if IsLetter U r \<or> IsNumber U r then r
      else of_char CHR '' '')"

definition removeMn :: "unicode \<Rightarrow> gostring \<Rightarrow> gostring" where
  "removeMn U s = filter (\<lambda>r. \<not> IsMn U r) s"

definition toProtobufPkg :: "unicode \<Rightarrow> gostring \<Rightarrow> gostring" where
  "toProtobufPkg U path =
     (let pkg = map (pkgRune U) path;
          pkg = filter (\<lambda>r. r \<noteq> of_char CHR '' '') pkg
      in NFC U (removeMn U (NFD U pkg)))"

section \<open>The declaration model (package scanner)\<close>

text \<open>
  Modelled from the spec: the declarations of package \<^verbatim>\<open>scanner\<close> are not among
  the sources. A type is Basic (a name), Named (a package path and a name) or Map
  (a key and a value type), and each carries its own repeated flag, the first
  argument of every constructor. A component of a map is \<open>None\<close> where the Go
  interface value is nil (\<^verbatim>\<open>scanType\<close> returns nil for a type it ignores);
  \<^verbatim>\<open>scanStruct\<close> never keeps a field whose type is nil, so the type of a field is
  never nil.
\<close>

datatype scanner_Type =
    scanner_Basic bool gostring
  | scanner_Named bool gostring gostring
  | scanner_Map bool "scanner_Type option" "scanner_Type option"

fun IsRepeated :: "scanner_Type \<Rightarrow> bool" where
  "IsRepeated (scanner_Basic rep name) = rep"
| "IsRepeated (scanner_Named rep path name) = rep"
| "IsRepeated (scanner_Map rep k v) = rep"

text \<open>
  Modelled from the spec: \<^verbatim>\<open>Named.String\<close>, the qualified name of a named type,
  the path and the name joined by a dot (as in the keys \<^verbatim>\<open>time.Time\<close> and
  \<^verbatim>\<open>foo.bar/baz.Qux\<close> of the mapping table).
\<close>

definition Named_String :: "gostring \<Rightarrow> gostring \<Rightarrow> gostring" where
  "Named_String path name = path @ str ''.'' @ name"

record scanner_Field =
  Name :: gostring
  Type :: scanner_Type

record scanner_Struct =
  Name :: gostring
  Fields :: "scanner_Field list"

record scanner_Enum =
  Name :: gostring
  Values :: "gostring list"

record scanner_Func =
  Name :: gostring
  Receiver :: "scanner_Type option"
  Input :: "scanner_Type list"
  Output :: "scanner_Type list"

record scanner_Package =
  Path :: gostring
  Name :: gostring
  Structs :: "scanner_Struct list"
  Enums :: "scanner_Enum list"
  Funcs :: "scanner_Func list"

section \<open>The output schema model (package protobuf)\<close>

text \<open>
  Modelled from the spec: the value objects of package \<^verbatim>\<open>protobuf\<close> (types,
  fields, messages, enums, RPCs and packages) are not among the sources. The
  constructors of \<open>Type\<close> carry the names of the Go constructor functions. A map
  type holds two interface values, each of which may be nil.
\<close>

datatype Type =
    NewBasic gostring
  | NewNamed gostring gostring
  | NewGeneratedNamed gostring gostring
  | NewMap "Type option" "Type option"

datatype OptionValue = NewStringValue gostring | NewLiteralValue gostring

type_synonym Options = "gostring \<rightharpoonup> OptionValue"

record Field =
  Name :: gostring
  Pos :: nat
  Type :: Type
  Repeated :: bool
  Options :: Options

record Message =
  Name :: gostring
  Fields :: "Field list"
  Reserved :: "nat list"

record EnumValue =
  Name :: gostring
  Value :: nat

record Enum =
  Name :: gostring
  Values :: "EnumValue list"

record RPC =
  Name :: gostring
  Input :: Type
  Output :: Type

record Package =
  Name :: gostring
  Path :: gostring
  Imports :: "gostring list"
  Options :: Options
  Messages :: "Message list"
  Enums :: "Enum list"
  RPCs :: "RPC list"

text \<open>
  Modelled from the spec: \<^verbatim>\<open>Message.Reserve\<close> adds a position to the reserved
  positions of the message, and \<^verbatim>\<open>EnumValues.Add\<close> appends a (name, ordinal)
  pair to the ordered list of values.
\<close>

definition Reserve :: "Message \<Rightarrow> nat \<Rightarrow> Message" where
  "Reserve m pos = m\<lparr>Reserved := Reserved m @ [pos]\<rparr>"

definition Values_Add :: "EnumValue list \<Rightarrow> gostring \<Rightarrow> nat \<Rightarrow> EnumValue list" where
  "Values_Add vs name val = vs @ [\<lparr>EnumValue.Name = name, Value = val\<rparr>]"

section \<open>The type-mapping table (mapping.go)\<close>

text \<open>
  A decorator receives the package, the message and the field, and may change
  each of them. \<open>Warn\<close> is a format string, kept as it is written in the source.
\<close>

type_synonym Decorator = "Package \<times> Message \<times> Field \<Rightarrow> Package \<times> Message \<times> Field"

record ProtoType =
  Package :: gostring
  Basic :: bool
  Name :: gostring
  Import :: gostring
  GoImport :: gostring
  Decorators :: "Decorator list"
  Warn :: string

text \<open>The zero value of the struct: what a composite literal leaves unset.\<close>

definition zeroProtoType :: ProtoType where
  "zeroProtoType = \<lparr>Package = [], Basic = False, Name = [], Import = [], GoImport = [],
     Decorators = [], Warn = []\<rparr>"

definition ProtoType_Type :: "ProtoType \<Rightarrow> Type" where
  "ProtoType_Type t =
     (if Basic t then NewBasic (ProtoType.Name t)
      else NewNamed (ProtoType.Package t) (ProtoType.Name t))"

definition NewDecorators :: "Decorator list \<Rightarrow> Decorator list" where
  "NewDecorators fns = foldl (\<lambda>decorators fn. decorators @ [fn]) [] fns"

definition Decorators_Run :: "Decorator list \<Rightarrow> Package \<times> Message \<times> Field \<Rightarrow> Package \<times> Message \<times> Field" where
  "Decorators_Run ds pmf = foldl (\<lambda>x d. d x) pmf ds"

definition Decorate :: "ProtoType \<Rightarrow> Package \<times> Message \<times> Field \<Rightarrow> Package \<times> Message \<times> Field" where
  "Decorate pt pmf = Decorators_Run (Decorators pt) pmf"

text \<open>The two decorators written in the table (a nil option bag is the empty one).\<close>

definition stdtimeDecorator :: Decorator where
  "stdtimeDecorator = (\<lambda>(p, m, f). (p, m,
     f\<lparr>Field.Options := (Field.Options f)
         (str ''(gogoproto.stdtime)'' \<mapsto> NewLiteralValue (str ''true''),
          str ''(gogoproto.nullable)'' \<mapsto> NewLiteralValue (str ''false''))\<rparr>))"

definition stddurationDecorator :: Decorator where
  "stddurationDecorator = (\<lambda>(p, m, f). (p, m,
     f\<lparr>Field.Options := (Field.Options f)
         (str ''(gogoproto.stdduration)'' \<mapsto> NewLiteralValue (str ''true''),
          str ''(gogoproto.nullable)'' \<mapsto> NewLiteralValue (str ''false''))\<rparr>))"

text \<open>
  \<^verbatim>\<open>TypeMappings\<close> is a Go map from type names to pointers. A key that is absent
  and a key bound to nil both read as nil, which is \<open>None\<close> here.
\<close>

type_synonym TypeMappings = "gostring \<rightharpoonup> ProtoType"

text \<open>\<^verbatim>\<open>DefaultMappings\<close>, the first copy in mapping.go (lines 68 to 145).\<close>

definition DefaultMappings_list :: "(gostring \<times> ProtoType) list" where
  "DefaultMappings_list =
    [(str ''float64'', zeroProtoType\<lparr>ProtoType.Name := str ''double'', Basic := True\<rparr>),
     (str ''float32'', zeroProtoType\<lparr>ProtoType.Name := str ''float'', Basic := True\<rparr>),
     (str ''int32'', zeroProtoType\<lparr>ProtoType.Name := str ''int32'', Basic := True\<rparr>),
     (str ''int64'', zeroProtoType\<lparr>ProtoType.Name := str ''int64'', Basic := True\<rparr>),
     (str ''uint32'', zeroProtoType\<lparr>ProtoType.Name := str ''uint32'', Basic := True\<rparr>),
     (str ''uint64'', zeroProtoType\<lparr>ProtoType.Name := str ''uint64'', Basic := True\<rparr>),
     (str ''bool'', zeroProtoType\<lparr>ProtoType.Name := str ''bool'', Basic := True\<rparr>),
     (str ''string'', zeroProtoType\<lparr>ProtoType.Name := str ''string'', Basic := True\<rparr>),
     (str ''uint8'', zeroProtoType\<lparr>ProtoType.Name := str ''uint32'', Basic := True, Warn := ''type %s was upgraded to uint32''\<rparr>),
     (str ''int8'', zeroProtoType\<lparr>ProtoType.Name := str ''int32'', Basic := True, Warn := ''type %s was upgraded to int32''\<rparr>),
     (str ''byte'', zeroProtoType\<lparr>ProtoType.Name := str ''uint32'', Basic := True, Warn := ''type %s was upgraded to uint32''\<rparr>),
     (str ''uint16'', zeroProtoType\<lparr>ProtoType.Name := str ''uint32'', Basic := True, Warn := ''type %s was upgraded to uint32''\<rparr>),
     (str ''int16'', zeroProtoType\<lparr>ProtoType.Name := str ''int32'', Basic := True, Warn := ''type %s was upgraded to int32''\<rparr>),
     (str ''int'', zeroProtoType\<lparr>ProtoType.Name := str ''int64'', Basic := True, Warn := ''type %s was upgraded to int64''\<rparr>),
     (str ''uint'', zeroProtoType\<lparr>ProtoType.Name := str ''uint64'', Basic := True, Warn := ''type %s was upgraded to uint64''\<rparr>),
     (str ''uintptr'', zeroProtoType\<lparr>ProtoType.Name := str ''uint64'', Basic := True\<rparr>),
     (str ''rune'', zeroProtoType\<lparr>ProtoType.Name := str ''int32'', Basic := True\<rparr>),
     (str ''time.Time'', zeroProtoType\<lparr>ProtoType.Name := str ''Timestamp'',
        Package := str ''google.protobuf'',
        Import := str ''google/protobuf/timestamp.proto'',
        GoImport := str ''github.com/gogo/protobuf/types'',
        Decorators := NewDecorators [stdtimeDecorator]\<rparr>),
     (str ''time.Duration'', zeroProtoType\<lparr>ProtoType.Name := str ''int64'', Basic := True,
        Package := str ''google.protobuf'',
        Import := str ''google/protobuf/duration.proto'',
        GoImport := str ''github.com/gogo/protobuf/types'',
        Decorators := NewDecorators [stddurationDecorator]\<rparr>)]"

definition DefaultMappings :: TypeMappings where
  "DefaultMappings = map_of DefaultMappings_list"

text \<open>
  mapping.go holds a second copy of the table (lines 189 to 214), whose
  \<^verbatim>\<open>ProtoType\<close> has neither decorators nor warnings.
\<close>

definition DefaultMappings2_list :: "(gostring \<times> ProtoType) list" where
  "DefaultMappings2_list =
    [(str ''float64'', zeroProtoType\<lparr>ProtoType.Name := str ''double'', Basic := True\<rparr>),
     (str ''float32'', zeroProtoType\<lparr>ProtoType.Name := str ''float'', Basic := True\<rparr>),
     (str ''int32'', zeroProtoType\<lparr>ProtoType.Name := str ''int32'', Basic := True\<rparr>),
     (str ''int64'', zeroProtoType\<lparr>ProtoType.Name := str ''int64'', Basic := True\<rparr>),
     (str ''uint32'', zeroProtoType\<lparr>ProtoType.Name := str ''uint32'', Basic := True\<rparr>),
     (str ''uint64'', zeroProtoType\<lparr>ProtoType.Name := str ''uint64'', Basic := True\<rparr>),
     (str ''bool'', zeroProtoType\<lparr>ProtoType.Name := str ''bool'', Basic := True\<rparr>),
     (str ''string'', zeroProtoType\<lparr>ProtoType.Name := str ''string'', Basic := True\<rparr>),
     (str ''uint8'', zeroProtoType\<lparr>ProtoType.Name := str ''uint32'', Basic := True\<rparr>),
     (str ''int8'', zeroProtoType\<lparr>ProtoType.Name := str ''int32'', Basic := True\<rparr>),
     (str ''byte'', zeroProtoType\<lparr>ProtoType.Name := str ''uint32'', Basic := True\<rparr>),
     (str ''uint16'', zeroProtoType\<lparr>ProtoType.Name := str ''uint32'', Basic := True\<rparr>),
     (str ''int16'', zeroProtoType\<lparr>ProtoType.Name := str ''int32'', Basic := True\<rparr>),
     (str ''int'', zeroProtoType\<lparr>ProtoType.Name := str ''int32'', Basic := True\<rparr>),
     (str ''uint'', zeroProtoType\<lparr>ProtoType.Name := str ''uint32'', Basic := True\<rparr>),
     (str ''uintptr'', zeroProtoType\<lparr>ProtoType.Name := str ''uint64'', Basic := True\<rparr>),
     (str ''rune'', zeroProtoType\<lparr>ProtoType.Name := str ''int32'', Basic := True\<rparr>),
     (str ''time.Time'', zeroProtoType\<lparr>ProtoType.Name := str ''Timestamp'',
        Package := str ''google.protobuf'',
        Import := str ''google/protobuf/timestamp.proto'',
        GoImport := str ''github.com/gogo/protobuf/types''\<rparr>),
     (str ''time.Duration'', zeroProtoType\<lparr>ProtoType.Name := str ''int64'', Basic := True\<rparr>)]"

definition DefaultMappings2 :: TypeMappings where
  "DefaultMappings2 = map_of DefaultMappings2_list"

text \<open>
  Modelled from the spec: \<^verbatim>\<open>Package.Import\<close> and \<^verbatim>\<open>Package.ImportFromPath\<close> are
  not among the sources. The import list is insertion-ordered and duplicates are
  suppressed; a mapping requires an import when its \<open>Import\<close> is not empty, and
  the schema file of a source package is \<^verbatim>\<open>generated.proto\<close> under its path.
\<close>

definition Import :: "Package \<Rightarrow> ProtoType \<Rightarrow> Package" where
  "Import p typ =
     (if ProtoType.Import typ \<noteq> [] \<and> ProtoType.Import typ \<notin> set (Imports p)
      then p\<lparr>Imports := Imports p @ [ProtoType.Import typ]\<rparr> else p)"

definition generatedFile :: "gostring \<Rightarrow> gostring" where
  "generatedFile path = path @ str ''/generated.proto''"

definition ImportFromPath :: "Package \<Rightarrow> gostring \<Rightarrow> Package" where
  "ImportFromPath p path =
     (if generatedFile path \<notin> set (Imports p)
      then p\<lparr>Imports := Imports p @ [generatedFile path]\<rparr> else p)"

section \<open>The transformer (transform.go)\<close>

text \<open>
  The transformer functions change the package they are given (its imports) and
  write to the reporting sink. Both are passed and returned: the state is the
  package together with the warnings reported so far, each warning being the
  format string and the arguments of one call of \<^verbatim>\<open>report.Warn\<close>.
\<close>

type_synonym warning = "string \<times> gostring list"
type_synonym state = "Package \<times> warning list"

definition report_Warn :: "string \<Rightarrow> gostring list \<Rightarrow> state \<Rightarrow> state" where
  "report_Warn fmt args st = (fst st, snd st @ [(fmt, args)])"

record Transformer =
  mappings :: TypeMappings

definition NewTransformer :: Transformer where
  "NewTransformer = \<lparr>mappings = Map.empty\<rparr>"

definition SetMappings :: "Transformer \<Rightarrow> TypeMappings option \<Rightarrow> Transformer" where
  "SetMappings t m = (case m of None \<Rightarrow> t | Some m' \<Rightarrow> t\<lparr>mappings := m'\<rparr>)"

text \<open>
  \<^verbatim>\<open>findMapping\<close> reads the custom table first and the package's default table
  second. The source writes the default table \<^verbatim>\<open>defaultMappings\<close>; it is the table
  \<^verbatim>\<open>DefaultMappings\<close> of mapping.go.
\<close>

definition findMapping :: "Transformer \<Rightarrow> gostring \<Rightarrow> ProtoType option" where
  "findMapping t name =
     (case mappings t name of None \<Rightarrow> DefaultMappings name | Some typ \<Rightarrow> Some typ)"

fun isByteSlice :: "scanner_Type \<Rightarrow> bool" where
  "isByteSlice (scanner_Basic rep name) = (if rep then name = str ''byte'' else False)"
| "isByteSlice typ = False"

text \<open>
  \<^verbatim>\<open>transformType\<close>. The argument is \<open>None\<close> for the nil interface value, which no
  case of the type switch matches. The arguments of \<^verbatim>\<open>NewMap\<close> are evaluated from
  left to right, the key first.
\<close>

fun transformType :: "unicode \<Rightarrow> Transformer \<Rightarrow> scanner_Type option \<Rightarrow> state \<Rightarrow> Type option \<times> state" where
  "transformType U t (Some (scanner_Named rep path name)) st =
     (case findMapping t (Named_String path name) of
        Some protoType \<Rightarrow> (Some (ProtoType_Type protoType), (Import (fst st) protoType, snd st))
      | None \<Rightarrow> (Some (NewNamed (toProtobufPkg U path) name), (ImportFromPath (fst st) path, snd st)))"
| "transformType U t (Some (scanner_Basic rep name)) st =
     (case findMapping t name of
        Some protoType \<Rightarrow> (Some (ProtoType_Type protoType), (Import (fst st) protoType, snd st))
      | None \<Rightarrow>
          (None, report_Warn ''basic type %q is not defined in the mappings, ignoring'' [name] st))"
| "transformType U t (Some (scanner_Map rep key val)) st =
     (case transformType U t key st of (k, st1) \<Rightarrow>
        (case transformType U t val st1 of (v, st2) \<Rightarrow>
           (Some (NewMap k v), st2)))"
| "transformType U t None st = (None, st)"

definition transformField :: "unicode \<Rightarrow> Transformer \<Rightarrow> scanner_Field \<Rightarrow> nat \<Rightarrow> state \<Rightarrow> Field option \<times> state" where
  "transformField U t field pos st =
     (let repeated = IsRepeated (scanner_Field.Type field) in
      if isByteSlice (scanner_Field.Type field)
      then (Some \<lparr>Field.Name = toLowerSnakeCase U (scanner_Field.Name field), Pos = pos,
                   Type = NewBasic (str ''bytes''), Repeated = False, Options = Map.empty\<rparr>, st)
      else (case transformType U t (Some (scanner_Field.Type field)) st of
              (None, st') \<Rightarrow> (None, st')
            | (Some typ, st') \<Rightarrow>
                (Some \<lparr>Field.Name = toLowerSnakeCase U (scanner_Field.Name field), Pos = pos,
                        Type = typ, Repeated = repeated, Options = Map.empty\<rparr>, st')))"

text \<open>
  \<^verbatim>\<open>transformStruct\<close>: the loop over the fields, \<open>i\<close> being the index of the
  first field of the remaining list.
\<close>

fun structLoop :: "unicode \<Rightarrow> Transformer \<Rightarrow> gostring \<Rightarrow> nat \<Rightarrow> scanner_Field list \<Rightarrow> Message \<Rightarrow> state \<Rightarrow> Message \<times> state" where
  "structLoop U t sname i [] msg st = (msg, st)"
| "structLoop U t sname i (f # fs) msg st =
     (case transformField U t f (i + 1) st of
        (None, st') \<Rightarrow>
          structLoop U t sname (i + 1) fs (Reserve msg (i + 1))
            (report_Warn ''field %q of struct %q has an invalid type, ignoring field but reserving its position''
               [scanner_Field.Name f, sname] st')
      | (Some field, st') \<Rightarrow>
          structLoop U t sname (i + 1) fs (msg\<lparr>Message.Fields := Message.Fields msg @ [field]\<rparr>) st')"

definition transformStruct :: "unicode \<Rightarrow> Transformer \<Rightarrow> scanner_Struct \<Rightarrow> state \<Rightarrow> Message \<times> state" where
  "transformStruct U t s st =
     structLoop U t (scanner_Struct.Name s) 0 (scanner_Struct.Fields s)
       \<lparr>Message.Name = scanner_Struct.Name s, Fields = [], Reserved = []\<rparr> st"

fun enumLoop :: "unicode \<Rightarrow> nat \<Rightarrow> gostring list \<Rightarrow> Enum \<Rightarrow> Enum" where
  "enumLoop U i [] enum = enum"
| "enumLoop U i (v # vs) enum =
     enumLoop U (i + 1) vs
       (enum\<lparr>Enum.Values := Values_Add (Enum.Values enum) (toUpperSnakeCase U v) i\<rparr>)"

definition transformEnum :: "unicode \<Rightarrow> scanner_Enum \<Rightarrow> Enum" where
  "transformEnum U e = enumLoop U 0 (scanner_Enum.Values e) \<lparr>Enum.Name = scanner_Enum.Name e, Values = []\<rparr>"

definition defaultOptionsForPackage :: "scanner_Package \<Rightarrow> Options" where
  "defaultOptionsForPackage p = [str ''go_package'' \<mapsto> NewStringValue (scanner_Package.Name p)]"

fun transformStructs :: "unicode \<Rightarrow> Transformer \<Rightarrow> scanner_Struct list \<Rightarrow> state \<Rightarrow> state" where
  "transformStructs U t [] st = st"
| "transformStructs U t (s # ss) st =
     (case transformStruct U t s st of
        (msg, (pkg, ws)) \<Rightarrow> transformStructs U t ss (pkg\<lparr>Messages := Messages pkg @ [msg]\<rparr>, ws))"

definition Transform :: "unicode \<Rightarrow> Transformer \<Rightarrow> scanner_Package \<Rightarrow> warning list \<Rightarrow> state" where
  "Transform U t p ws =
     (let pkg = \<lparr>Package.Name = toProtobufPkg U (scanner_Package.Path p),
                 Path = scanner_Package.Path p, Imports = [],
                 Options = defaultOptionsForPackage p, Messages = [], Enums = [], RPCs = []\<rparr>;
          (pkg, ws) = transformStructs U t (scanner_Package.Structs p) (pkg, ws)
      in (foldl (\<lambda>pkg e. pkg\<lparr>Package.Enums := Package.Enums pkg @ [transformEnum U e]\<rparr>)
            pkg (scanner_Package.Enums p), ws))"

section \<open>Function to RPC transformation\<close>

text \<open>
  Modelled from the spec: \<^verbatim>\<open>transformFunc\<close> is called by the tests but is not
  defined in the sources. The definitions of this section follow the steps of the
  function-to-RPC algorithm of the specification: the name prefixed by the
  receiver's type name, the two wrapper names, the check against the collision
  set, the trailing error sentinel, a lone named type used directly, wrapper
  messages with fields \<^verbatim>\<open>arg1, arg2, ...\<close> and \<^verbatim>\<open>result1, result2, ...\<close> transformed
  as a struct is, and the registration of the names, the messages and the RPC.
\<close>

type_synonym nameSet = "gostring set"

fun decimal :: "nat \<Rightarrow> gostring" where
  "decimal n = (if n < 10 then [of_char CHR ''0'' + n]
                else decimal (n div 10) @ [of_char CHR ''0'' + n mod 10])"

fun isError :: "scanner_Type \<Rightarrow> bool" where
  "isError (scanner_Named rep path name) = (path = [] \<and> name = str ''error'')"
| "isError typ = False"

definition removeLastError :: "scanner_Type list \<Rightarrow> scanner_Type list" where
  "removeLastError types =
     (if types \<noteq> [] \<and> isError (last types) then butlast types else types)"

fun funcName :: "scanner_Func \<Rightarrow> gostring option" where
  "funcName f =
     (case Receiver f of
        None \<Rightarrow> Some (scanner_Func.Name f)
      | Some (scanner_Named rep path name) \<Rightarrow> Some (name @ str ''_'' @ scanner_Func.Name f)
      | Some typ \<Rightarrow> None)"

definition createMessageFromTypes :: "unicode \<Rightarrow> Transformer \<Rightarrow> gostring \<Rightarrow> scanner_Type list \<Rightarrow> string \<Rightarrow> state \<Rightarrow> Message \<times> state" where
  "createMessageFromTypes U t name types fieldPrefix st =
     transformStruct U t
       \<lparr>scanner_Struct.Name = name,
        Fields = map (\<lambda>(i, typ). \<lparr>scanner_Field.Name = str fieldPrefix @ decimal (i + 1), Type = typ\<rparr>)
                   (enumerate 0 types)\<rparr> st"

text \<open>
  One side of the RPC: the type the RPC refers to, the wrapper message if one
  was synthesized, and the new state.
\<close>

fun transformSide :: "unicode \<Rightarrow> Transformer \<Rightarrow> gostring \<Rightarrow> scanner_Type list \<Rightarrow> string \<Rightarrow> state \<Rightarrow> Type \<times> Message option \<times> state" where
  "transformSide U t name [scanner_Named False path tname] fieldPrefix st =
     (case transformType U t (Some (scanner_Named False path tname)) st of
        (Some typ, st') \<Rightarrow> (typ, None, st')
      | (None, st') \<Rightarrow> (NewGeneratedNamed (toProtobufPkg U (Package.Path (fst st'))) name, None, st'))"
| "transformSide U t name types fieldPrefix st =
     (case createMessageFromTypes U t name types fieldPrefix st of
        (msg, st') \<Rightarrow>
          (NewGeneratedNamed (toProtobufPkg U (Package.Path (fst st'))) name, Some msg, st'))"

definition addMessage :: "Message option \<Rightarrow> Package \<Rightarrow> Package" where
  "addMessage m pkg = (case m of None \<Rightarrow> pkg | Some msg \<Rightarrow> pkg\<lparr>Messages := Messages pkg @ [msg]\<rparr>)"

definition registerName :: "Message option \<Rightarrow> nameSet \<Rightarrow> nameSet" where
  "registerName m names = (case m of None \<Rightarrow> names | Some msg \<Rightarrow> insert (Message.Name msg) names)"

definition transformFunc :: "unicode \<Rightarrow> Transformer \<Rightarrow> scanner_Func \<Rightarrow> nameSet \<Rightarrow> state \<Rightarrow> RPC option \<times> nameSet \<times> state" where
  "transformFunc U t f names st =
     (case funcName f of
        None \<Rightarrow> (None, names, st)
      | Some name \<Rightarrow>
          (let reqName = name @ str ''Request'';
               respName = name @ str ''Response''
           in if reqName \<in> names \<or> respName \<in> names then (None, names, st)
              else
                (case transformSide U t reqName (scanner_Func.Input f) ''arg'' st of
                   (input, reqMsg, st1) \<Rightarrow>
                (case transformSide U t respName (removeLastError (scanner_Func.Output f)) ''result'' st1 of
                   (output, respMsg, (pkg, ws)) \<Rightarrow>
                     (let rpc = \<lparr>RPC.Name = name, Input = input, Output = output\<rparr>;
                          pkg = addMessage respMsg (addMessage reqMsg pkg);
                          pkg = pkg\<lparr>RPCs := RPCs pkg @ [rpc]\<rparr>
                      in (Some rpc, registerName respMsg (registerName reqMsg names), (pkg, ws)))))))"

section \<open>Auxiliary definitions for the properties\<close>

text \<open>
  The claim about lower snake case in the words of the specification: an
  underscore goes before the rune at index \<open>k\<close> exactly when that rune is upper
  case, is not the first one, and the rune before it is not upper case; every
  rune is lowercased.
\<close>

definition underscoreBefore :: "unicode \<Rightarrow> gostring \<Rightarrow> nat \<Rightarrow> bool" where
  "underscoreBefore U s k = (IsUpper U (s ! k) \<and> k \<noteq> 0 \<and> \<not> IsUpper U (s ! (k - 1)))"

definition spec_toLowerSnakeCase :: "unicode \<Rightarrow> gostring \<Rightarrow> gostring" where
  "spec_toLowerSnakeCase U s =
     concat (map (\<lambda>k. (if underscoreBefore U s k then str ''_'' else []) @ [ToLower U (s ! k)])
               [0..<length s])"

text \<open>
  A fragment of the Unicode tables, for the strings of the tests: Basic Latin,
  the letters U+00F2 and U+00F3 (o with grave, o with acute) and the two
  combining marks U+0300 and U+0301 of their decompositions. On these runes the
  classification and the case mappings are those of Go's tables; NFD decomposes
  and NFC composes these two letters and nothing else.
\<close>

definition fragment_decompose :: "rune \<Rightarrow> gostring" where
  "fragment_decompose r = (if r = 242 then [111, 768] else if r = 243 then [111, 769] else [r])"

fun fragment_compose :: "gostring \<Rightarrow> gostring" where
  "fragment_compose (a # b # rs) =
     (if a = 111 \<and> b = 768 then 242 # fragment_compose rs
      else if a = 111 \<and> b = 769 then 243 # fragment_compose rs
      else a # fragment_compose (b # rs))"
| "fragment_compose rs = rs"

definition fragment_NFD :: "gostring \<Rightarrow> gostring" where
  "fragment_NFD s = concat (map fragment_decompose s)"

definition unicode_fragment :: unicode where
  "unicode_fragment =
     \<lparr>IsUpper = (\<lambda>r. 65 \<le> r \<and> r \<le> 90),
      IsLetter = (\<lambda>r. (65 \<le> r \<and> r \<le> 90) \<or> (97 \<le> r \<and> r \<le> 122) \<or> r = 242 \<or> r = 243),
      IsNumber = (\<lambda>r. 48 \<le> r \<and> r \<le> 57),
      IsMn = (\<lambda>r. r = 768 \<or> r = 769),
      ToLower = (\<lambda>r. if 65 \<le> r \<and> r \<le> 90 then r + 32 else r),
      ToUpper = (\<lambda>r. if (97 \<le> r \<and> r \<le> 122) \<or> r = 242 \<or> r = 243 then r - 32 else r),
      NFD = fragment_NFD,
      NFC = (\<lambda>s. fragment_compose (fragment_NFD s))\<rparr>"

text \<open>
  What the package-name transform needs of the normalisation library. A rune is
  kept when the first two steps leave it as it is. The three properties: NFD
  after NFC is NFD; removing the marks of a decomposed string leaves a decomposed
  string; and composing the letters, digits and dots that remain gives letters,
  digits and dots again.
\<close>

definition kept :: "unicode \<Rightarrow> rune \<Rightarrow> bool" where
  "kept U r = (pkgRune U r = r \<and> r \<noteq> of_char CHR '' '')"

definition norm_contract :: "unicode \<Rightarrow> bool" where
  "norm_contract U =
     ((\<forall>y. NFD U (NFC U y) = NFD U y) \<and>
      (\<forall>x. list_all (kept U) x \<longrightarrow> NFD U (removeMn U (NFD U x)) = removeMn U (NFD U x)) \<and>
      (\<forall>x. list_all (kept U) x \<longrightarrow> list_all (kept U) (NFC U (removeMn U (NFD U x)))))"

text \<open>
  Whether the transformation of a field fails. The answer does not depend on the
  position or on the state (lemma \<open>transformField_None_iff\<close> below), so it is
  read off a run at position 0 in the empty package.
\<close>

definition zeroPackage :: Package where
  "zeroPackage = \<lparr>Package.Name = [], Path = [], Imports = [], Options = Map.empty,
     Messages = [], Enums = [], RPCs = []\<rparr>"

definition dropped :: "unicode \<Rightarrow> Transformer \<Rightarrow> scanner_Field \<Rightarrow> bool" where
  "dropped U t f = (fst (transformField U t f 0 (zeroPackage, [])) = None)"

text \<open>
  The positions \<open>k + 1\<close> of the fields that satisfy \<open>P\<close>, \<open>k\<close> being the index of
  the field in the declaration, counted from \<open>i\<close> for the first field of \<open>fs\<close>.
\<close>

definition positionsOf :: "(scanner_Field \<Rightarrow> bool) \<Rightarrow> nat \<Rightarrow> scanner_Field list \<Rightarrow> nat list" where
  "positionsOf P i fs = map (\<lambda>(k, f). k + 1) (filter (\<lambda>(k, f). P f) (enumerate i fs))"

section \<open>Lower snake case\<close>

text \<open>
  The loop invariant: after the runes \<open>pre\<close> have been read, the offset is 0
  exactly when \<open>pre\<close> is empty, and \<open>lastWasUpper\<close> tells whether the last rune of
  \<open>pre\<close> is upper case.
\<close>

lemma snakeLoop_spec:
  "(i = 0 \<longleftrightarrow> pre = []) \<Longrightarrow> (lastU \<longleftrightarrow> (pre \<noteq> [] \<and> IsUpper U (last pre))) \<Longrightarrow>
   snakeLoop U i lastU buf rs =
     buf @ concat (map (\<lambda>k. (if underscoreBefore U (pre @ rs) k then str ''_'' else [])
                              @ [ToLower U ((pre @ rs) ! k)])
               [length pre..<length (pre @ rs)])"
proof (induction rs arbitrary: i lastU buf pre)
  case Nil
  then show ?case by simp
next
  case (Cons r rs)
  have w: "i + runeWidth r \<noteq> 0" by (simp add: runeWidth_def)
  have ih: "snakeLoop U (i + runeWidth r) (IsUpper U r) b rs =
     b @ concat (map (\<lambda>k. (if underscoreBefore U ((pre @ [r]) @ rs) k then str ''_'' else [])
                            @ [ToLower U (((pre @ [r]) @ rs) ! k)])
               [length (pre @ [r])..<length ((pre @ [r]) @ rs)])" for b
    by (rule Cons.IH) (use w in simp_all)
  have ub: "underscoreBefore U (pre @ r # rs) (length pre) = (IsUpper U r \<and> i \<noteq> 0 \<and> \<not> lastU)"
    using Cons.prems by (cases pre rule: rev_cases) (auto simp: underscoreBefore_def nth_append)
  have up: "[length pre..<length (pre @ r # rs)]
              = length pre # [Suc (length pre)..<length (pre @ r # rs)]"
    by (rule upt_conv_Cons) simp
  show ?case
    by (simp only: snakeLoop.simps ih up list.map concat.simps ub) simp
qed

lemma fragment_snake_fooBarBaz:
  "toLowerSnakeCase unicode_fragment (str ''fooBarBaz'') = str ''foo_bar_baz''"
  by (simp add: toLowerSnakeCase_def str_def unicode_fragment_def runeWidth_def)

lemma fragment_snake_FooBarBaz:
  "toLowerSnakeCase unicode_fragment (str ''FooBarBaz'') = str ''foo_bar_baz''"
  by (simp add: toLowerSnakeCase_def str_def unicode_fragment_def runeWidth_def)

lemma fragment_snake_foo1barBaz:
  "toLowerSnakeCase unicode_fragment (str ''foo1barBaz'') = str ''foo1bar_baz''"
  by (simp add: toLowerSnakeCase_def str_def unicode_fragment_def runeWidth_def)

lemma fragment_snake_fooBAR:
  "toLowerSnakeCase unicode_fragment (str ''fooBAR'') = str ''foo_bar''"
  by (simp add: toLowerSnakeCase_def str_def unicode_fragment_def runeWidth_def)

lemma fragment_snake_FBar:
  "toLowerSnakeCase unicode_fragment (str ''FBar'') = str ''fbar''"
  by (simp add: toLowerSnakeCase_def str_def unicode_fragment_def runeWidth_def)

text \<open>
  Claim C2. For every string and whatever the case tables of the library are,
  \<^verbatim>\<open>toLowerSnakeCase\<close> writes an underscore before exactly the upper-case runes
  that are neither first nor preceded by an upper-case rune, and writes every rune
  lowercased. On the Latin fragment: fooBarBaz and FooBarBaz give foo_bar_baz,
  foo1barBaz gives foo1bar_baz, fooBAR gives foo_bar, FBar gives fbar.
\<close>

theorem toLowerSnakeCase_correct:
  "toLowerSnakeCase U s = spec_toLowerSnakeCase U s \<and>
   toLowerSnakeCase unicode_fragment (str ''fooBarBaz'') = str ''foo_bar_baz'' \<and>
   toLowerSnakeCase unicode_fragment (str ''FooBarBaz'') = str ''foo_bar_baz'' \<and>
   toLowerSnakeCase unicode_fragment (str ''foo1barBaz'') = str ''foo1bar_baz'' \<and>
   toLowerSnakeCase unicode_fragment (str ''fooBAR'') = str ''foo_bar'' \<and>
   toLowerSnakeCase unicode_fragment (str ''FBar'') = str ''fbar''"
proof -
  have "toLowerSnakeCase U s = spec_toLowerSnakeCase U s"
    unfolding toLowerSnakeCase_def spec_toLowerSnakeCase_def
    using snakeLoop_spec[of 0 "[]" False U "[]" s] by simp
  then show ?thesis
    using fragment_snake_fooBarBaz fragment_snake_FooBarBaz fragment_snake_foo1barBaz
      fragment_snake_fooBAR fragment_snake_FBar
    by (intro conjI)
qed

section \<open>Enumerations\<close>

lemma enumLoop_spec:
  "enumLoop U i vs enum =
     enum\<lparr>Enum.Values := Enum.Values enum @
        map (\<lambda>(k, v). \<lparr>EnumValue.Name = toUpperSnakeCase U v, Value = k\<rparr>) (enumerate i vs)\<rparr>"
  by (induction vs arbitrary: i enum) (simp_all add: Values_Add_def)

lemma transformEnum_values:
  "Enum.Values (transformEnum U e) =
     map (\<lambda>(k, v). \<lparr>EnumValue.Name = toUpperSnakeCase U v, Value = k\<rparr>)
       (enumerate 0 (scanner_Enum.Values e))"
  by (simp add: transformEnum_def enumLoop_spec)

lemma fragment_upper_Foo: "toUpperSnakeCase unicode_fragment (str ''Foo'') = str ''FOO''"
  by (simp add: toUpperSnakeCase_def strings_ToUpper_def toLowerSnakeCase_def str_def
      unicode_fragment_def runeWidth_def)

lemma fragment_upper_Bar: "toUpperSnakeCase unicode_fragment (str ''Bar'') = str ''BAR''"
  by (simp add: toUpperSnakeCase_def strings_ToUpper_def toLowerSnakeCase_def str_def
      unicode_fragment_def runeWidth_def)

lemma fragment_upper_BarBaz: "toUpperSnakeCase unicode_fragment (str ''BarBaz'') = str ''BAR_BAZ''"
  by (simp add: toUpperSnakeCase_def strings_ToUpper_def toLowerSnakeCase_def str_def
      unicode_fragment_def runeWidth_def)

lemma fragment_upper_Alpha: "toUpperSnakeCase unicode_fragment (str ''Alpha'') = str ''ALPHA''"
  by (simp add: toUpperSnakeCase_def strings_ToUpper_def toLowerSnakeCase_def str_def
      unicode_fragment_def runeWidth_def)

text \<open>
  Claim C3. The transformed enum keeps the name, has one value per declared
  value, and the value at index \<open>i\<close> has the upper snake case of the \<open>i\<close>-th
  declared name and the ordinal \<open>i\<close>. The declared values Foo, Bar, BarBaz give
  (FOO, 0), (BAR, 1), (BAR_BAZ, 2).
\<close>

theorem transformEnum_ordinals:
  "Enum.Name (transformEnum U e) = scanner_Enum.Name e \<and>
   length (Enum.Values (transformEnum U e)) = length (scanner_Enum.Values e) \<and>
   (\<forall>i < length (scanner_Enum.Values e).
      Enum.Values (transformEnum U e) ! i =
        \<lparr>EnumValue.Name = toUpperSnakeCase U (scanner_Enum.Values e ! i), Value = i\<rparr>) \<and>
   Enum.Values (transformEnum unicode_fragment
       \<lparr>scanner_Enum.Name = str ''Foo'', Values = [str ''Foo'', str ''Bar'', str ''BarBaz'']\<rparr>) =
     [\<lparr>EnumValue.Name = str ''FOO'', Value = 0\<rparr>,
      \<lparr>EnumValue.Name = str ''BAR'', Value = 1\<rparr>,
      \<lparr>EnumValue.Name = str ''BAR_BAZ'', Value = 2\<rparr>]"
proof (intro conjI allI impI)
  show "Enum.Name (transformEnum U e) = scanner_Enum.Name e"
    by (simp add: transformEnum_def enumLoop_spec)
  show "length (Enum.Values (transformEnum U e)) = length (scanner_Enum.Values e)"
    by (simp add: transformEnum_values)
  show "Enum.Values (transformEnum U e) ! i =
        \<lparr>EnumValue.Name = toUpperSnakeCase U (scanner_Enum.Values e ! i), Value = i\<rparr>"
    if "i < length (scanner_Enum.Values e)" for i
    using that by (simp add: transformEnum_values nth_enumerate_eq)
  show "Enum.Values (transformEnum unicode_fragment
       \<lparr>scanner_Enum.Name = str ''Foo'', Values = [str ''Foo'', str ''Bar'', str ''BarBaz'']\<rparr>) =
     [\<lparr>EnumValue.Name = str ''FOO'', Value = 0\<rparr>,
      \<lparr>EnumValue.Name = str ''BAR'', Value = 1\<rparr>,
      \<lparr>EnumValue.Name = str ''BAR_BAZ'', Value = 2\<rparr>]"
    by (simp add: transformEnum_values fragment_upper_Foo fragment_upper_Bar fragment_upper_BarBaz)
qed

text \<open>
  An enum whose declared order is not the alphabetical one: the second declared
  value, Alpha, keeps the ordinal 1.
\<close>

theorem transformEnum_ordinals_witness:
  "Enum.Values (transformEnum unicode_fragment
       \<lparr>scanner_Enum.Name = str ''E'', Values = [str ''Zed'', str ''Alpha'']\<rparr>) ! 1 =
     \<lparr>EnumValue.Name = str ''ALPHA'', Value = 1\<rparr>"
proof -
  have "(1::nat) < length (scanner_Enum.Values
          \<lparr>scanner_Enum.Name = str ''E'', Values = [str ''Zed'', str ''Alpha'']\<rparr>)"
    by simp
  with transformEnum_ordinals[of unicode_fragment
      "\<lparr>scanner_Enum.Name = str ''E'', Values = [str ''Zed'', str ''Alpha'']\<rparr>"]
  have "Enum.Values (transformEnum unicode_fragment
       \<lparr>scanner_Enum.Name = str ''E'', Values = [str ''Zed'', str ''Alpha'']\<rparr>) ! 1 =
     \<lparr>EnumValue.Name = toUpperSnakeCase unicode_fragment (str ''Alpha''), Value = 1\<rparr>"
    by simp
  then show ?thesis by (simp add: fragment_upper_Alpha)
qed

section \<open>Fields and structs\<close>

lemma str_eq_iff [simp]: "(str a = str b) = (a = b)"
proof -
  have "inj (of_char :: char \<Rightarrow> nat)" by (simp add: inj_def)
  then show ?thesis unfolding str_def by (rule inj_map_eq_map)
qed

lemma str_Nil_iff [simp]: "(str a = []) = (a = [])" "([] = str a) = (a = [])"
  by (auto simp: str_def)

lemma transformType_fst_state:
  "fst (transformType U t ty st) = fst (transformType U t ty st')"
proof (induction U t ty st arbitrary: st' rule: transformType.induct)
  case (1 U t rep path name st)
  then show ?case by (simp split: option.splits)
next
  case (2 U t rep name st)
  then show ?case by (simp split: option.splits)
next
  case (3 U t rep key val st)
  obtain k st1 where k: "transformType U t key st = (k, st1)" by (cases "transformType U t key st")
  obtain k' st1' where k': "transformType U t key st' = (k', st1')" by (cases "transformType U t key st'")
  obtain v st2 where v: "transformType U t val st1 = (v, st2)" by (cases "transformType U t val st1")
  obtain v' st2' where v': "transformType U t val st1' = (v', st2')" by (cases "transformType U t val st1'")
  have "k = k'" using "3.IH"(1)[of st'] k k' by simp
  moreover have "v = v'" using "3.IH"(2)[OF k[symmetric], of st1'] v v' by simp
  ultimately show ?case by (simp add: k k' v v')
next
  case (4 U t st)
  then show ?case by simp
qed

lemma transformField_fst_state:
  "fst (transformField U t f pos st) = fst (transformField U t f pos st')"
proof -
  obtain r s1 where a: "transformType U t (Some (scanner_Field.Type f)) st = (r, s1)"
    by (cases "transformType U t (Some (scanner_Field.Type f)) st")
  obtain r' s1' where b: "transformType U t (Some (scanner_Field.Type f)) st' = (r', s1')"
    by (cases "transformType U t (Some (scanner_Field.Type f)) st'")
  have "r = r'"
    using transformType_fst_state[of U t "Some (scanner_Field.Type f)" st st'] a b by simp
  then show ?thesis
    by (simp add: transformField_def a b Let_def split: option.splits)
qed

lemma transformField_None_pos:
  "(fst (transformField U t f pos st) = None) = (fst (transformField U t f pos' st) = None)"
  by (simp add: transformField_def Let_def split: prod.splits option.splits)

lemma transformField_None_iff:
  "(fst (transformField U t f pos st) = None) = dropped U t f"
  unfolding dropped_def
  using transformField_None_pos[of U t f pos st 0]
    transformField_fst_state[of U t f 0 st "(zeroPackage, [])"] by simp

lemma transformField_Some_Pos:
  "fst (transformField U t f pos st) = Some fld \<Longrightarrow> Field.Pos fld = pos"
  by (auto simp: transformField_def Let_def split: prod.splits option.splits if_splits)

lemma structLoop_positions:
  "map Field.Pos (Message.Fields (fst (structLoop U t sname i fs msg st))) =
     map Field.Pos (Message.Fields msg) @ positionsOf (\<lambda>f. \<not> dropped U t f) i fs \<and>
   Reserved (fst (structLoop U t sname i fs msg st)) =
     Reserved msg @ positionsOf (dropped U t) i fs \<and>
   Message.Name (fst (structLoop U t sname i fs msg st)) = Message.Name msg"
proof (induction fs arbitrary: i msg st)
  case Nil
  then show ?case by (simp add: positionsOf_def)
next
  case (Cons f fs)
  obtain r st' where r: "transformField U t f (Suc i) st = (r, st')"
    by (cases "transformField U t f (Suc i) st")
  show ?case
  proof (cases r)
    case None
    then have d: "dropped U t f" using transformField_None_iff[of U t f "Suc i" st] r by simp
    show ?thesis using Cons.IH[of "Suc i"] d
      by (simp add: r None positionsOf_def Reserve_def)
  next
    case (Some fld)
    then have d: "\<not> dropped U t f" using transformField_None_iff[of U t f "Suc i" st] r by simp
    have p: "Field.Pos fld = Suc i" using transformField_Some_Pos[of U t f "Suc i" st fld] r Some by simp
    show ?thesis using Cons.IH[of "Suc i"] d p
      by (simp add: r Some positionsOf_def)
  qed
qed


lemma structLoop_fields:
  "Message.Fields (fst (structLoop U t sname i fs msg st)) =
     Message.Fields msg @
       map (\<lambda>(k, f). the (fst (transformField U t f (k + 1) st0)))
         (filter (\<lambda>(k, f). \<not> dropped U t f) (enumerate i fs))"
proof (induction fs arbitrary: i msg st)
  case Nil
  then show ?case by simp
next
  case (Cons f fs)
  obtain r st' where r: "transformField U t f (Suc i) st = (r, st')"
    by (cases "transformField U t f (Suc i) st")
  have r0: "fst (transformField U t f (Suc i) st0) = r"
    using transformField_fst_state[of U t f "Suc i" st0 st] r by simp
  show ?case
  proof (cases r)
    case None
    then have d: "dropped U t f" using transformField_None_iff[of U t f "Suc i" st] r by simp
    show ?thesis using Cons.IH[of "Suc i"] d
      by (simp add: r None Reserve_def)
  next
    case (Some fld)
    then have d: "\<not> dropped U t f" using transformField_None_iff[of U t f "Suc i" st] r by simp
    show ?thesis using Cons.IH[of "Suc i"] d r0
      by (simp add: r Some)
  qed
qed

lemma positionsOf_sorted:
  "sorted_wrt (<) (positionsOf P i fs) \<and> (\<forall>p \<in> set (positionsOf P i fs). i < p)"
proof (induction fs arbitrary: i)
  case Nil
  then show ?case by (simp add: positionsOf_def)
next
  case (Cons f fs)
  have "\<forall>p \<in> set (positionsOf P (Suc i) fs). Suc i < p" using Cons.IH[of "Suc i"] by simp
  moreover have "sorted_wrt (<) (positionsOf P (Suc i) fs)" using Cons.IH[of "Suc i"] by simp
  ultimately show ?case
    by (auto simp: positionsOf_def)
qed

lemma positionsOf_member:
  "(p \<in> set (positionsOf P i fs)) = (\<exists>k < length fs. p = i + k + 1 \<and> P (fs ! k))"
proof
  assume "p \<in> set (positionsOf P i fs)"
  then obtain k f where kf: "(k, f) \<in> set (enumerate i fs)" "P f" "p = k + 1"
    by (auto simp: positionsOf_def)
  then have "i \<le> k" "k < length fs + i" "fs ! (k - i) = f"
    by (simp_all add: in_set_enumerate_eq)
  then show "\<exists>k < length fs. p = i + k + 1 \<and> P (fs ! k)"
    using kf by (intro exI[of _ "k - i"]) auto
next
  assume "\<exists>k < length fs. p = i + k + 1 \<and> P (fs ! k)"
  then obtain k where k: "k < length fs" "p = i + k + 1" "P (fs ! k)" by blast
  then have "(i + k, fs ! k) \<in> set (enumerate i fs)"
    by (simp add: in_set_enumerate_eq)
  then show "p \<in> set (positionsOf P i fs)"
    using k unfolding positionsOf_def by force
qed

lemma transformStruct_fields:
  "Message.Fields (fst (transformStruct U t s st)) =
     map (\<lambda>(k, f). the (fst (transformField U t f (k + 1) st)))
       (filter (\<lambda>(k, f). \<not> dropped U t f) (enumerate 0 (scanner_Struct.Fields s)))"
  unfolding transformStruct_def by (subst structLoop_fields[where ?st0.0 = st]) simp

lemma DefaultMappings_complex64: "DefaultMappings (str ''complex64'') = None"
  by (simp add: DefaultMappings_def DefaultMappings_list_def)

lemma dropped_complex64:
  "dropped U NewTransformer \<lparr>scanner_Field.Name = n, Type = scanner_Basic False (str ''complex64'')\<rparr>"
  by (simp add: dropped_def transformField_def findMapping_def NewTransformer_def
      DefaultMappings_complex64 report_Warn_def)

lemma not_dropped_int32:
  "\<not> dropped U NewTransformer \<lparr>scanner_Field.Name = n, Type = scanner_Basic False (str ''int32'')\<rparr>"
  by (simp add: dropped_def transformField_def findMapping_def NewTransformer_def
      DefaultMappings_def DefaultMappings_list_def)

text \<open>
  Claim C1. In the message that \<^verbatim>\<open>transformStruct\<close> returns, the positions of the
  fields are, in this order, the declaration indices plus one of the fields whose
  transformation succeeds, and the reserved positions are those of the fields
  whose transformation fails. For every declared field: if its transformation
  fails, its index plus one is reserved and is the position of no field; if not,
  the transformed field is in the message at that position and the position is
  not reserved. No position is both a field's and reserved, the positions of the
  fields are strictly increasing, and a struct of three fields of which exactly
  the second one fails gives the positions 1 and 3 and the reserved position 2.
\<close>

theorem transformStruct_positions:
  "map Field.Pos (Message.Fields (fst (transformStruct U t s st))) =
     positionsOf (\<lambda>f. \<not> dropped U t f) 0 (scanner_Struct.Fields s) \<and>
   Reserved (fst (transformStruct U t s st)) =
     positionsOf (dropped U t) 0 (scanner_Struct.Fields s) \<and>
   (\<forall>i < length (scanner_Struct.Fields s).
      if fst (transformField U t (scanner_Struct.Fields s ! i) (i + 1) st) = None
      then i + 1 \<in> set (Reserved (fst (transformStruct U t s st))) \<and>
           i + 1 \<notin> Field.Pos ` set (Message.Fields (fst (transformStruct U t s st)))
      else i + 1 \<notin> set (Reserved (fst (transformStruct U t s st))) \<and>
           the (fst (transformField U t (scanner_Struct.Fields s ! i) (i + 1) st))
             \<in> set (Message.Fields (fst (transformStruct U t s st))) \<and>
           Field.Pos (the (fst (transformField U t (scanner_Struct.Fields s ! i) (i + 1) st))) = i + 1) \<and>
   Field.Pos ` set (Message.Fields (fst (transformStruct U t s st)))
      \<inter> set (Reserved (fst (transformStruct U t s st))) = {} \<and>
   sorted_wrt (<) (map Field.Pos (Message.Fields (fst (transformStruct U t s st)))) \<and>
   (\<forall>f1 f2 f3. scanner_Struct.Fields s = [f1, f2, f3] \<and>
        \<not> dropped U t f1 \<and> dropped U t f2 \<and> \<not> dropped U t f3 \<longrightarrow>
      map Field.Pos (Message.Fields (fst (transformStruct U t s st))) = [1, 3] \<and>
      Reserved (fst (transformStruct U t s st)) = [2])"
proof -
  let ?fs = "scanner_Struct.Fields s"
  let ?msg = "fst (transformStruct U t s st)"
  have pos: "map Field.Pos (Message.Fields ?msg) = positionsOf (\<lambda>f. \<not> dropped U t f) 0 ?fs"
    and res: "Reserved ?msg = positionsOf (dropped U t) 0 ?fs"
    unfolding transformStruct_def
    using structLoop_positions[of U t "scanner_Struct.Name s" 0 ?fs
        "\<lparr>Message.Name = scanner_Struct.Name s, Fields = [], Reserved = []\<rparr>" st]
    by simp_all
  have posset: "Field.Pos ` set (Message.Fields ?msg) = set (positionsOf (\<lambda>f. \<not> dropped U t f) 0 ?fs)"
    using pos by (metis set_map)
  have disj: "Field.Pos ` set (Message.Fields ?msg) \<inter> set (Reserved ?msg) = {}"
    unfolding posset res by (auto simp: positionsOf_member)
  have srt: "sorted_wrt (<) (map Field.Pos (Message.Fields ?msg))"
    unfolding pos using positionsOf_sorted by blast
  have each: "if fst (transformField U t (?fs ! i) (i + 1) st) = None
      then i + 1 \<in> set (Reserved ?msg) \<and> i + 1 \<notin> Field.Pos ` set (Message.Fields ?msg)
      else i + 1 \<notin> set (Reserved ?msg) \<and>
           the (fst (transformField U t (?fs ! i) (i + 1) st)) \<in> set (Message.Fields ?msg) \<and>
           Field.Pos (the (fst (transformField U t (?fs ! i) (i + 1) st))) = i + 1"
    if i: "i < length ?fs" for i
  proof (cases "fst (transformField U t (?fs ! i) (i + 1) st) = None")
    case True
    then have d: "dropped U t (?fs ! i)" by (simp add: transformField_None_iff)
    have "i + 1 \<in> set (Reserved ?msg)"
      unfolding res positionsOf_member using i d by auto
    moreover have "i + 1 \<notin> Field.Pos ` set (Message.Fields ?msg)"
      unfolding posset positionsOf_member using d by auto
    ultimately show ?thesis using True by simp
  next
    case False
    then have d: "\<not> dropped U t (?fs ! i)" by (simp add: transformField_None_iff)
    from False obtain fld where fld: "fst (transformField U t (?fs ! i) (i + 1) st) = Some fld"
      by auto
    have "i + 1 \<notin> set (Reserved ?msg)"
      unfolding res positionsOf_member using d by auto
    moreover have "(i, ?fs ! i) \<in> set (enumerate 0 ?fs)"
      using i by (simp add: in_set_enumerate_eq)
    then have "fld \<in> set (Message.Fields ?msg)"
      unfolding transformStruct_fields using d fld by force
    moreover have "Field.Pos fld = i + 1"
      using transformField_Some_Pos[OF fld] .
    ultimately show ?thesis using False fld by simp
  qed
  have three: "map Field.Pos (Message.Fields ?msg) = [1, 3] \<and> Reserved ?msg = [2]"
    if "?fs = [f1, f2, f3] \<and> \<not> dropped U t f1 \<and> dropped U t f2 \<and> \<not> dropped U t f3"
    for f1 f2 f3
    unfolding pos res using that by (simp add: positionsOf_def)
  show ?thesis
    using pos res each disj srt three by blast
qed


text \<open>
  A struct with the fields A of type int32, B of type complex64 (which no table
  maps) and C of type int32, transformed with the default table only.
\<close>

theorem transformStruct_positions_witness:
  "map Field.Pos (Message.Fields (fst (transformStruct unicode_fragment NewTransformer
      \<lparr>scanner_Struct.Name = str ''Foo'',
       Fields = [\<lparr>scanner_Field.Name = str ''A'', Type = scanner_Basic False (str ''int32'')\<rparr>,
                 \<lparr>scanner_Field.Name = str ''B'', Type = scanner_Basic False (str ''complex64'')\<rparr>,
                 \<lparr>scanner_Field.Name = str ''C'', Type = scanner_Basic False (str ''int32'')\<rparr>]\<rparr>
      (zeroPackage, [])))) = [1, 3] \<and>
   Reserved (fst (transformStruct unicode_fragment NewTransformer
      \<lparr>scanner_Struct.Name = str ''Foo'',
       Fields = [\<lparr>scanner_Field.Name = str ''A'', Type = scanner_Basic False (str ''int32'')\<rparr>,
                 \<lparr>scanner_Field.Name = str ''B'', Type = scanner_Basic False (str ''complex64'')\<rparr>,
                 \<lparr>scanner_Field.Name = str ''C'', Type = scanner_Basic False (str ''int32'')\<rparr>]\<rparr>
      (zeroPackage, []))) = [2]"
proof -
  let ?A = "\<lparr>scanner_Field.Name = str ''A'', Type = scanner_Basic False (str ''int32'')\<rparr>"
  let ?B = "\<lparr>scanner_Field.Name = str ''B'', Type = scanner_Basic False (str ''complex64'')\<rparr>"
  let ?C = "\<lparr>scanner_Field.Name = str ''C'', Type = scanner_Basic False (str ''int32'')\<rparr>"
  let ?s = "\<lparr>scanner_Struct.Name = str ''Foo'', Fields = [?A, ?B, ?C]\<rparr>"
  let ?msg = "fst (transformStruct unicode_fragment NewTransformer ?s (zeroPackage, []))"
  have "\<forall>f1 f2 f3. scanner_Struct.Fields ?s = [f1, f2, f3] \<and>
        \<not> dropped unicode_fragment NewTransformer f1 \<and> dropped unicode_fragment NewTransformer f2 \<and>
        \<not> dropped unicode_fragment NewTransformer f3 \<longrightarrow>
      map Field.Pos (Message.Fields ?msg) = [1, 3] \<and> Reserved ?msg = [2]"
    using transformStruct_positions[of unicode_fragment NewTransformer ?s "(zeroPackage, [])"]
    by (elim conjE)
  from this[rule_format, of ?A ?B ?C] show ?thesis
    using dropped_complex64 not_dropped_int32 by simp
qed

section \<open>Byte slices and the repeated flag\<close>

lemma findMapping_int32: "findMapping NewTransformer (str ''int32'') = Some (zeroProtoType\<lparr>ProtoType.Name := str ''int32'', Basic := True\<rparr>)"
  by (simp add: findMapping_def NewTransformer_def DefaultMappings_def DefaultMappings_list_def)

lemma fragment_snake_Bar: "toLowerSnakeCase unicode_fragment (str ''Bar'') = str ''bar''"
  by (simp add: toLowerSnakeCase_def str_def unicode_fragment_def runeWidth_def)

text \<open>
  Claim C4. A field whose type is the repeated basic type byte is transformed,
  whatever the mapping tables hold, to a field of the basic type bytes that is
  not repeated, and the state is left as it is. For every other field, whenever
  a field is produced its repeated flag is the one of the declared type.
\<close>

theorem transformField_byte_slice:
  "(scanner_Field.Type f = scanner_Basic True (str ''byte'') \<longrightarrow>
      transformField U t f pos st =
        (Some \<lparr>Field.Name = toLowerSnakeCase U (scanner_Field.Name f), Pos = pos,
                Type = NewBasic (str ''bytes''), Repeated = False, Options = Map.empty\<rparr>, st)) \<and>
   (scanner_Field.Type f \<noteq> scanner_Basic True (str ''byte'') \<longrightarrow>
      (\<forall>fld. fst (transformField U t f pos st) = Some fld \<longrightarrow>
         Repeated fld = IsRepeated (scanner_Field.Type f)))"
proof (intro conjI impI allI)
  assume "scanner_Field.Type f = scanner_Basic True (str ''byte'')"
  then show "transformField U t f pos st =
        (Some \<lparr>Field.Name = toLowerSnakeCase U (scanner_Field.Name f), Pos = pos,
                Type = NewBasic (str ''bytes''), Repeated = False, Options = Map.empty\<rparr>, st)"
    by (simp add: transformField_def)
next
  fix fld
  assume n: "scanner_Field.Type f \<noteq> scanner_Basic True (str ''byte'')"
    and s: "fst (transformField U t f pos st) = Some fld"
  have "\<not> isByteSlice (scanner_Field.Type f)"
    using n by (cases "scanner_Field.Type f") (auto split: if_splits)
  then show "Repeated fld = IsRepeated (scanner_Field.Type f)"
    using s by (auto simp: transformField_def Let_def split: prod.splits option.splits)
qed

text \<open>
  A field Bar of type []byte, and a field Bar of type []int32, at position 2.
\<close>

theorem transformField_byte_slice_witness:
  "transformField unicode_fragment NewTransformer
      \<lparr>scanner_Field.Name = str ''Bar'', Type = scanner_Basic True (str ''byte'')\<rparr> 2 (zeroPackage, []) =
     (Some \<lparr>Field.Name = str ''bar'', Pos = 2, Type = NewBasic (str ''bytes''), Repeated = False,
             Options = Map.empty\<rparr>, (zeroPackage, [])) \<and>
   fst (transformField unicode_fragment NewTransformer
      \<lparr>scanner_Field.Name = str ''Bar'', Type = scanner_Basic True (str ''int32'')\<rparr> 2 (zeroPackage, []))
     \<noteq> None \<and>
   Repeated (the (fst (transformField unicode_fragment NewTransformer
      \<lparr>scanner_Field.Name = str ''Bar'', Type = scanner_Basic True (str ''int32'')\<rparr> 2 (zeroPackage, []))))"
proof -
  let ?f = "\<lparr>scanner_Field.Name = str ''Bar'', Type = scanner_Basic True (str ''byte'')\<rparr>"
  let ?g = "\<lparr>scanner_Field.Name = str ''Bar'', Type = scanner_Basic True (str ''int32'')\<rparr>"
  have a: "transformField unicode_fragment NewTransformer ?f 2 (zeroPackage, []) =
     (Some \<lparr>Field.Name = str ''bar'', Pos = 2, Type = NewBasic (str ''bytes''), Repeated = False,
             Options = Map.empty\<rparr>, (zeroPackage, []))"
    using transformField_byte_slice[of ?f unicode_fragment NewTransformer 2 "(zeroPackage, [])"]
    by (simp add: fragment_snake_Bar)
  obtain fld where g: "fst (transformField unicode_fragment NewTransformer ?g 2 (zeroPackage, [])) = Some fld"
    by (simp add: transformField_def findMapping_int32)
  have "scanner_Field.Type ?g \<noteq> scanner_Basic True (str ''byte'')" by simp
  with transformField_byte_slice[of ?g unicode_fragment NewTransformer 2 "(zeroPackage, [])"] g
  have "Repeated fld = IsRepeated (scanner_Field.Type ?g)" by blast
  then show ?thesis using a g by simp
qed

section \<open>Named types without a mapping\<close>

lemma str_append: "str a @ str b = str (a @ b)"
  by (simp add: str_def)

lemma generatedFile_imported: "generatedFile path \<in> set (Imports (ImportFromPath pkg path))"
  by (simp add: ImportFromPath_def)

lemma fragment_pkg_foo: "toProtobufPkg unicode_fragment (str ''foo'') = str ''foo''"
  by (simp add: toProtobufPkg_def pkgRune_def removeMn_def unicode_fragment_def fragment_NFD_def
      fragment_decompose_def str_def)

lemma fragment_pkg_net_url: "toProtobufPkg unicode_fragment (str ''net/url'') = str ''net.url''"
  by (simp add: toProtobufPkg_def pkgRune_def removeMn_def unicode_fragment_def fragment_NFD_def
      fragment_decompose_def str_def)

lemma fragment_pkg_github:
  "toProtobufPkg unicode_fragment (str ''github.com/foo/bar'') = str ''github.com.foo.bar''"
  by (simp add: toProtobufPkg_def pkgRune_def removeMn_def unicode_fragment_def fragment_NFD_def
      fragment_decompose_def str_def)

lemma fragment_snake_Links: "toLowerSnakeCase unicode_fragment (str ''Links'') = str ''links''"
  by (simp add: toLowerSnakeCase_def str_def unicode_fragment_def runeWidth_def)

lemma DefaultMappings_foo_Bar: "DefaultMappings (Named_String (str ''foo'') (str ''Bar'')) = None"
  by (simp add: DefaultMappings_def DefaultMappings_list_def Named_String_def str_append)

lemma DefaultMappings_net_url_URL:
  "DefaultMappings (Named_String (str ''net/url'') (str ''URL'')) = None"
  by (simp add: DefaultMappings_def DefaultMappings_list_def Named_String_def str_append)

lemma DefaultMappings_github_Baz:
  "DefaultMappings (Named_String (str ''github.com/foo/bar'') (str ''Baz'')) = None"
  by (simp add: DefaultMappings_def DefaultMappings_list_def Named_String_def str_append)

lemma unmapped_named_result:
  "mappings t (Named_String path name) = None \<Longrightarrow> DefaultMappings (Named_String path name) = None \<Longrightarrow>
     transformType U t (Some (scanner_Named rep path name)) (pkg, ws) =
       (Some (NewNamed (toProtobufPkg U path) name), (ImportFromPath pkg path, ws))"
  by (simp add: findMapping_def)

text \<open>
  Claim C10. A named type that neither the custom table nor the default table
  maps is transformed to the named type whose package is \<^verbatim>\<open>toProtobufPkg\<close> of the
  source path and whose name is the source name; the package is the one that
  \<^verbatim>\<open>ImportFromPath\<close> returns for the source path, which lists the schema file of
  that path among its imports; and a field of this type is not dropped. With the
  default table only, the type URL of the package net/url becomes the type URL
  of the namespace net.url and the file net/url/generated.proto is imported, and
  the type Bar of the package foo becomes the type Bar of the namespace foo.
\<close>

theorem transformType_unmapped_named:
  "(mappings t (Named_String path name) = None \<and> DefaultMappings (Named_String path name) = None \<longrightarrow>
     transformType U t (Some (scanner_Named rep path name)) (pkg, ws) =
       (Some (NewNamed (toProtobufPkg U path) name), (ImportFromPath pkg path, ws)) \<and>
     generatedFile path \<in> set (Imports (ImportFromPath pkg path)) \<and>
     transformField U t \<lparr>scanner_Field.Name = n, Type = scanner_Named rep path name\<rparr> pos (pkg, ws) =
       (Some \<lparr>Field.Name = toLowerSnakeCase U n, Pos = pos,
               Type = NewNamed (toProtobufPkg U path) name, Repeated = rep, Options = Map.empty\<rparr>,
        (ImportFromPath pkg path, ws))) \<and>
   transformType unicode_fragment NewTransformer
       (Some (scanner_Named False (str ''net/url'') (str ''URL''))) (zeroPackage, []) =
     (Some (NewNamed (str ''net.url'') (str ''URL'')),
      (zeroPackage\<lparr>Imports := [str ''net/url/generated.proto'']\<rparr>, [])) \<and>
   transformType unicode_fragment NewTransformer
       (Some (scanner_Named False (str ''foo'') (str ''Bar''))) (zeroPackage, []) =
     (Some (NewNamed (str ''foo'') (str ''Bar'')),
      (zeroPackage\<lparr>Imports := [str ''foo/generated.proto'']\<rparr>, []))"
proof (intro conjI)
  show "mappings t (Named_String path name) = None \<and> DefaultMappings (Named_String path name) = None \<longrightarrow>
     transformType U t (Some (scanner_Named rep path name)) (pkg, ws) =
       (Some (NewNamed (toProtobufPkg U path) name), (ImportFromPath pkg path, ws)) \<and>
     generatedFile path \<in> set (Imports (ImportFromPath pkg path)) \<and>
     transformField U t \<lparr>scanner_Field.Name = n, Type = scanner_Named rep path name\<rparr> pos (pkg, ws) =
       (Some \<lparr>Field.Name = toLowerSnakeCase U n, Pos = pos,
               Type = NewNamed (toProtobufPkg U path) name, Repeated = rep, Options = Map.empty\<rparr>,
        (ImportFromPath pkg path, ws))"
    by (simp add: findMapping_def transformField_def generatedFile_imported)
  have m: "mappings NewTransformer k = None" for k by (simp add: NewTransformer_def)
  show "transformType unicode_fragment NewTransformer
       (Some (scanner_Named False (str ''net/url'') (str ''URL''))) (zeroPackage, []) =
     (Some (NewNamed (str ''net.url'') (str ''URL'')),
      (zeroPackage\<lparr>Imports := [str ''net/url/generated.proto'']\<rparr>, []))"
    by (simp only: unmapped_named_result[OF m DefaultMappings_net_url_URL]
        fragment_pkg_net_url)
      (simp add: ImportFromPath_def generatedFile_def zeroPackage_def str_append)
  show "transformType unicode_fragment NewTransformer
       (Some (scanner_Named False (str ''foo'') (str ''Bar''))) (zeroPackage, []) =
     (Some (NewNamed (str ''foo'') (str ''Bar'')),
      (zeroPackage\<lparr>Imports := [str ''foo/generated.proto'']\<rparr>, []))"
    by (simp only: unmapped_named_result[OF m DefaultMappings_foo_Bar]
        fragment_pkg_foo)
      (simp add: ImportFromPath_def generatedFile_def zeroPackage_def str_append)
qed

text \<open>
  A field Links whose type is a slice of the type Baz of the package
  github.com/foo/bar, at position 3: the namespace is github.com.foo.bar.
\<close>

theorem transformType_unmapped_named_witness:
  "transformField unicode_fragment NewTransformer
      \<lparr>scanner_Field.Name = str ''Links'',
       Type = scanner_Named True (str ''github.com/foo/bar'') (str ''Baz'')\<rparr> 3 (zeroPackage, []) =
     (Some \<lparr>Field.Name = str ''links'', Pos = 3,
             Type = NewNamed (str ''github.com.foo.bar'') (str ''Baz''), Repeated = True,
             Options = Map.empty\<rparr>,
      (zeroPackage\<lparr>Imports := [str ''github.com/foo/bar/generated.proto'']\<rparr>, [])) \<and>
   str ''github.com/foo/bar/generated.proto''
     \<in> set (Imports (ImportFromPath zeroPackage (str ''github.com/foo/bar'')))"
proof -
  have h: "mappings NewTransformer (Named_String (str ''github.com/foo/bar'') (str ''Baz'')) = None \<and>
        DefaultMappings (Named_String (str ''github.com/foo/bar'') (str ''Baz'')) = None"
    by (simp add: NewTransformer_def DefaultMappings_github_Baz)
  note th = transformType_unmapped_named[of NewTransformer "str ''github.com/foo/bar''" "str ''Baz''"
      unicode_fragment True zeroPackage "[]" "str ''Links''" 3, THEN conjunct1, rule_format, OF h]
  have f: "transformField unicode_fragment NewTransformer
      \<lparr>scanner_Field.Name = str ''Links'',
       Type = scanner_Named True (str ''github.com/foo/bar'') (str ''Baz'')\<rparr> 3 (zeroPackage, []) =
     (Some \<lparr>Field.Name = toLowerSnakeCase unicode_fragment (str ''Links''), Pos = 3,
             Type = NewNamed (toProtobufPkg unicode_fragment (str ''github.com/foo/bar'')) (str ''Baz''),
             Repeated = True, Options = Map.empty\<rparr>,
      (ImportFromPath zeroPackage (str ''github.com/foo/bar''), []))"
    using th by blast
  have g: "generatedFile (str ''github.com/foo/bar'')
      \<in> set (Imports (ImportFromPath zeroPackage (str ''github.com/foo/bar'')))"
    using th by blast
  have i: "ImportFromPath zeroPackage (str ''github.com/foo/bar'') =
      zeroPackage\<lparr>Imports := [str ''github.com/foo/bar/generated.proto'']\<rparr>"
    by (simp add: ImportFromPath_def generatedFile_def zeroPackage_def str_append)
  have gf: "generatedFile (str ''github.com/foo/bar'') = str ''github.com/foo/bar/generated.proto''"
    by (simp add: generatedFile_def str_append)
  show ?thesis
    using f g by (simp only: fragment_snake_Links fragment_pkg_github i gf)
qed

section \<open>Types without a mapping\<close>

lemma transformType_warnings_mono:
  "set (snd st) \<subseteq> set (snd (snd (transformType U t ty st)))"
proof (induction U t ty st rule: transformType.induct)
  case (1 U t rep path name st)
  then show ?case by (simp split: option.splits)
next
  case (2 U t rep name st)
  then show ?case by (auto simp: report_Warn_def split: option.splits)
next
  case (3 U t rep key val st)
  obtain k st1 where k: "transformType U t key st = (k, st1)" by (cases "transformType U t key st")
  obtain v st2 where v: "transformType U t val st1 = (v, st2)" by (cases "transformType U t val st1")
  have "set (snd st) \<subseteq> set (snd st1)" using "3.IH"(1) k by simp
  moreover have "set (snd st1) \<subseteq> set (snd st2)" using "3.IH"(2)[OF k[symmetric]] v by simp
  ultimately show ?case by (auto simp: k v)
next
  case (4 U t st)
  then show ?case by simp
qed

lemma transformField_warnings_mono:
  "set (snd st) \<subseteq> set (snd (snd (transformField U t f pos st)))"
  using transformType_warnings_mono[of st U t "Some (scanner_Field.Type f)"]
  by (auto simp: transformField_def Let_def split: prod.splits option.splits)

lemma structLoop_warnings_mono:
  "set (snd st) \<subseteq> set (snd (snd (structLoop U t sname i fs msg st)))"
proof (induction fs arbitrary: i msg st)
  case Nil
  then show ?case by simp
next
  case (Cons f fs)
  obtain r st' where r: "transformField U t f (Suc i) st = (r, st')"
    by (cases "transformField U t f (Suc i) st")
  have m: "set (snd st) \<subseteq> set (snd st')"
    using transformField_warnings_mono[of st U t f "Suc i"] r by simp
  show ?case
  proof (cases r)
    case None
    have "set (snd (report_Warn w args st')) \<subseteq>
          set (snd (snd (structLoop U t sname (Suc i) fs (Reserve msg (Suc i)) (report_Warn w args st'))))"
      for w args by (rule Cons.IH)
    moreover have "set (snd st') \<subseteq> set (snd (report_Warn w args st'))" for w args
      by (auto simp: report_Warn_def)
    ultimately show ?thesis using m by (simp add: r None) (meson subset_trans)
  next
    case (Some fld)
    have "set (snd st') \<subseteq> set (snd (snd (structLoop U t sname (Suc i) fs
            (msg\<lparr>Message.Fields := Message.Fields msg @ [fld]\<rparr>) st')))"
      by (rule Cons.IH)
    then show ?thesis using m by (auto simp: r Some)
  qed
qed

lemma transformField_unmapped_basic:
  "findMapping t name = None \<Longrightarrow>
   transformField U t \<lparr>scanner_Field.Name = n, Type = scanner_Basic rep name\<rparr> pos st =
     (None, report_Warn ''basic type %q is not defined in the mappings, ignoring'' [name] st)"
proof -
  assume a: "findMapping t name = None"
  have "DefaultMappings (str ''byte'') \<noteq> None"
    by (simp add: DefaultMappings_def DefaultMappings_list_def)
  then have "name \<noteq> str ''byte''" using a by (auto simp: findMapping_def split: option.splits)
  then show ?thesis using a by (simp add: transformField_def)
qed

lemma structLoop_unmapped_basic_warned:
  "k < length fs \<Longrightarrow> scanner_Field.Type (fs ! k) = scanner_Basic rep name \<Longrightarrow>
   findMapping t name = None \<Longrightarrow>
   (''basic type %q is not defined in the mappings, ignoring'', [name])
      \<in> set (snd (snd (structLoop U t sname i fs msg st))) \<and>
   (''field %q of struct %q has an invalid type, ignoring field but reserving its position'',
      [scanner_Field.Name (fs ! k), sname])
      \<in> set (snd (snd (structLoop U t sname i fs msg st)))"
proof (induction fs arbitrary: k i msg st)
  case Nil
  then show ?case by simp
next
  case (Cons f fs)
  obtain r st' where r: "transformField U t f (Suc i) st = (r, st')"
    by (cases "transformField U t f (Suc i) st")
  show ?case
  proof (cases k)
    case 0
    then have ty: "scanner_Field.Type f = scanner_Basic rep name" using Cons.prems by simp
    have "f = \<lparr>scanner_Field.Name = scanner_Field.Name f, Type = scanner_Basic rep name\<rparr>"
      using ty by (cases f) simp
    then have "transformField U t f (Suc i) st =
      (None, report_Warn ''basic type %q is not defined in the mappings, ignoring'' [name] st)"
      using transformField_unmapped_basic[OF Cons.prems(3), of U "scanner_Field.Name f" rep "Suc i" st]
      by simp
    then have rr: "r = None" "st' = report_Warn ''basic type %q is not defined in the mappings, ignoring'' [name] st"
      using r by simp_all
    let ?st2 = "report_Warn ''field %q of struct %q has an invalid type, ignoring field but reserving its position''
               [scanner_Field.Name f, sname] st'"
    have "(''basic type %q is not defined in the mappings, ignoring'', [name]) \<in> set (snd ?st2)"
      "(''field %q of struct %q has an invalid type, ignoring field but reserving its position'',
          [scanner_Field.Name f, sname]) \<in> set (snd ?st2)"
      by (simp_all add: rr report_Warn_def)
    then show ?thesis
      using structLoop_warnings_mono[of ?st2 U t sname "Suc i" fs "Reserve msg (Suc i)"] 0
      by (simp add: r rr(1)) blast
  next
    case (Suc k')
    then have p: "k' < length fs" "scanner_Field.Type (fs ! k') = scanner_Basic rep name"
      using Cons.prems by simp_all
    show ?thesis
      using Cons.IH[OF p Cons.prems(3)] Suc
      by (cases r) (simp_all add: r)
  qed
qed


lemma fragment_snake_X: "toLowerSnakeCase unicode_fragment (str ''X'') = str ''x''"
  by (simp add: toLowerSnakeCase_def str_def unicode_fragment_def runeWidth_def)

text \<open>
  Claim C5 does not hold for named types. The type Bar of the package foo is in
  neither table, yet the struct with the single field X of this type is
  transformed to a message with the field x at position 1, no reserved position
  and no warning.
\<close>

theorem unmapped_named_not_dropped:
  "mappings NewTransformer (Named_String (str ''foo'') (str ''Bar'')) = None \<and>
   DefaultMappings (Named_String (str ''foo'') (str ''Bar'')) = None \<and>
   transformStruct unicode_fragment NewTransformer
      \<lparr>scanner_Struct.Name = str ''S'',
       Fields = [\<lparr>scanner_Field.Name = str ''X'',
                  Type = scanner_Named False (str ''foo'') (str ''Bar'')\<rparr>]\<rparr>
      (zeroPackage, []) =
     (\<lparr>Message.Name = str ''S'',
       Fields = [\<lparr>Field.Name = str ''x'', Pos = 1, Type = NewNamed (str ''foo'') (str ''Bar''),
                  Repeated = False, Options = Map.empty\<rparr>],
       Reserved = []\<rparr>,
      (zeroPackage\<lparr>Imports := [str ''foo/generated.proto'']\<rparr>, []))"
  by (simp add: NewTransformer_def DefaultMappings_foo_Bar transformStruct_def transformField_def
      findMapping_def fragment_pkg_foo fragment_snake_X ImportFromPath_def generatedFile_def
      zeroPackage_def str_append)

text \<open>
  Claim C5, amended: for basic types. When the name of a basic type is in
  neither table, the transformation of a field of this type yields no field and
  reports the warning that names the type; and in the message of a struct that
  declares such a field at index \<open>i\<close>, the position \<open>i + 1\<close> is reserved and is
  the position of no field, and both the warning naming the type and the
  warning naming the field and the struct have been reported.
\<close>

theorem unmapped_basic_dropped:
  "mappings t name = None \<and> DefaultMappings name = None \<longrightarrow>
     transformField U t \<lparr>scanner_Field.Name = n, Type = scanner_Basic rep name\<rparr> pos st =
       (None, report_Warn ''basic type %q is not defined in the mappings, ignoring'' [name] st) \<and>
     (\<forall>i < length (scanner_Struct.Fields s).
        scanner_Field.Type (scanner_Struct.Fields s ! i) = scanner_Basic rep name \<longrightarrow>
          i + 1 \<in> set (Reserved (fst (transformStruct U t s st))) \<and>
          i + 1 \<notin> Field.Pos ` set (Message.Fields (fst (transformStruct U t s st))) \<and>
          (''basic type %q is not defined in the mappings, ignoring'', [name])
             \<in> set (snd (snd (transformStruct U t s st))) \<and>
          (''field %q of struct %q has an invalid type, ignoring field but reserving its position'',
             [scanner_Field.Name (scanner_Struct.Fields s ! i), scanner_Struct.Name s])
             \<in> set (snd (snd (transformStruct U t s st))))"
proof (intro impI conjI allI)
  assume a: "mappings t name = None \<and> DefaultMappings name = None"
  then have fm: "findMapping t name = None" by (simp add: findMapping_def)
  show "transformField U t \<lparr>scanner_Field.Name = n, Type = scanner_Basic rep name\<rparr> pos st =
       (None, report_Warn ''basic type %q is not defined in the mappings, ignoring'' [name] st)"
    by (rule transformField_unmapped_basic[OF fm])
  fix i
  let ?fs = "scanner_Struct.Fields s"
  let ?msg = "fst (transformStruct U t s st)"
  assume i: "i < length ?fs" and ty: "scanner_Field.Type (?fs ! i) = scanner_Basic rep name"
  have "?fs ! i = \<lparr>scanner_Field.Name = scanner_Field.Name (?fs ! i), Type = scanner_Basic rep name\<rparr>"
    using ty by (cases "?fs ! i") simp
  then have "fst (transformField U t (?fs ! i) 0 (zeroPackage, [])) = None"
    using transformField_unmapped_basic[OF fm, of U "scanner_Field.Name (?fs ! i)" rep 0 "(zeroPackage, [])"]
    by simp
  then have d: "dropped U t (?fs ! i)" by (simp add: dropped_def)
  have pos: "map Field.Pos (Message.Fields ?msg) = positionsOf (\<lambda>f. \<not> dropped U t f) 0 ?fs"
    and res: "Reserved ?msg = positionsOf (dropped U t) 0 ?fs"
    unfolding transformStruct_def
    using structLoop_positions[of U t "scanner_Struct.Name s" 0 ?fs
        "\<lparr>Message.Name = scanner_Struct.Name s, Fields = [], Reserved = []\<rparr>" st]
    by simp_all
  have posset: "Field.Pos ` set (Message.Fields ?msg) = set (positionsOf (\<lambda>f. \<not> dropped U t f) 0 ?fs)"
    using pos by (metis set_map)
  show "i + 1 \<in> set (Reserved ?msg)"
    unfolding res positionsOf_member using i d by auto
  show "i + 1 \<notin> Field.Pos ` set (Message.Fields ?msg)"
    unfolding posset positionsOf_member using d by auto
  show "(''basic type %q is not defined in the mappings, ignoring'', [name])
             \<in> set (snd (snd (transformStruct U t s st)))"
    unfolding transformStruct_def using structLoop_unmapped_basic_warned[OF i ty fm] by blast
  show "(''field %q of struct %q has an invalid type, ignoring field but reserving its position'',
             [scanner_Field.Name (?fs ! i), scanner_Struct.Name s])
             \<in> set (snd (snd (transformStruct U t s st)))"
    unfolding transformStruct_def using structLoop_unmapped_basic_warned[OF i ty fm] by blast
qed

text \<open>
  The basic type complex64, with the default table only: a field B of this type
  at position 2, and the struct with the fields A of type int32 and B.
\<close>

theorem unmapped_basic_dropped_witness:
  "transformField unicode_fragment NewTransformer
      \<lparr>scanner_Field.Name = str ''B'', Type = scanner_Basic False (str ''complex64'')\<rparr> 2 (zeroPackage, []) =
     (None, (zeroPackage, [(''basic type %q is not defined in the mappings, ignoring'', [str ''complex64''])])) \<and>
   2 \<in> set (Reserved (fst (transformStruct unicode_fragment NewTransformer
      \<lparr>scanner_Struct.Name = str ''Foo'',
       Fields = [\<lparr>scanner_Field.Name = str ''A'', Type = scanner_Basic False (str ''int32'')\<rparr>,
                 \<lparr>scanner_Field.Name = str ''B'', Type = scanner_Basic False (str ''complex64'')\<rparr>]\<rparr>
      (zeroPackage, [])))) \<and>
   (''basic type %q is not defined in the mappings, ignoring'', [str ''complex64''])
     \<in> set (snd (snd (transformStruct unicode_fragment NewTransformer
      \<lparr>scanner_Struct.Name = str ''Foo'',
       Fields = [\<lparr>scanner_Field.Name = str ''A'', Type = scanner_Basic False (str ''int32'')\<rparr>,
                 \<lparr>scanner_Field.Name = str ''B'', Type = scanner_Basic False (str ''complex64'')\<rparr>]\<rparr>
      (zeroPackage, []))))"
proof -
  let ?s = "\<lparr>scanner_Struct.Name = str ''Foo'',
       Fields = [\<lparr>scanner_Field.Name = str ''A'', Type = scanner_Basic False (str ''int32'')\<rparr>,
                 \<lparr>scanner_Field.Name = str ''B'', Type = scanner_Basic False (str ''complex64'')\<rparr>]\<rparr>"
  have h: "mappings NewTransformer (str ''complex64'') = None \<and> DefaultMappings (str ''complex64'') = None"
    by (simp add: NewTransformer_def DefaultMappings_complex64)
  note th = unmapped_basic_dropped[of NewTransformer "str ''complex64''" unicode_fragment "str ''B''"
      False 2 "(zeroPackage, [])" ?s, rule_format, OF h]
  have i: "1 < length (scanner_Struct.Fields ?s)"
    "scanner_Field.Type (scanner_Struct.Fields ?s ! 1) = scanner_Basic False (str ''complex64'')"
    by simp_all
  from th[THEN conjunct1] th[THEN conjunct2, rule_format, OF i] show ?thesis
    by (simp add: report_Warn_def numeral_2_eq_2)
qed

section \<open>Map types with a component that has no mapping\<close>

lemma fragment_snake_M: "toLowerSnakeCase unicode_fragment (str ''M'') = str ''m''"
  by (simp add: toLowerSnakeCase_def str_def unicode_fragment_def runeWidth_def)

lemma findMapping_string:
  "findMapping NewTransformer (str ''string'') =
     Some (zeroProtoType\<lparr>ProtoType.Name := str ''string'', Basic := True\<rparr>)"
  by (simp add: findMapping_def NewTransformer_def DefaultMappings_def DefaultMappings_list_def)

lemma findMapping_complex64: "findMapping NewTransformer (str ''complex64'') = None"
  by (simp add: findMapping_def NewTransformer_def DefaultMappings_complex64)

lemma map_never_dropped:
  "\<not> dropped U t \<lparr>scanner_Field.Name = n, Type = scanner_Map rep key val\<rparr>"
  by (simp add: dropped_def transformField_def split: prod.splits)

text \<open>
  Claim C6 fails on the code. \<^verbatim>\<open>transformType\<close> returns the result of \<^verbatim>\<open>NewMap\<close>
  for a map type, which is never nil, so \<^verbatim>\<open>transformField\<close> never drops a field
  of a map type (lemma \<open>map_never_dropped\<close>). For the struct whose single field M
  has the type map[complex64]string, the key type has no mapping: the warning
  for complex64 is reported, and the message holds, at position 1, a field whose
  map type has no key type; nothing is reserved.
\<close>

theorem map_with_unmapped_key_not_dropped:
  "transformStruct unicode_fragment NewTransformer
      \<lparr>scanner_Struct.Name = str ''S'',
       Fields = [\<lparr>scanner_Field.Name = str ''M'',
                  Type = scanner_Map False (Some (scanner_Basic False (str ''complex64'')))
                           (Some (scanner_Basic False (str ''string'')))\<rparr>]\<rparr>
      (zeroPackage, []) =
     (\<lparr>Message.Name = str ''S'',
       Fields = [\<lparr>Field.Name = str ''m'', Pos = 1,
                  Type = NewMap None (Some (NewBasic (str ''string''))),
                  Repeated = False, Options = Map.empty\<rparr>],
       Reserved = []\<rparr>,
      (zeroPackage, [(''basic type %q is not defined in the mappings, ignoring'', [str ''complex64''])]))"
  by (simp add: transformStruct_def transformField_def findMapping_string findMapping_complex64
      fragment_snake_M report_Warn_def ProtoType_Type_def zeroProtoType_def Import_def)

section \<open>Upgrade warnings\<close>

lemma transformType_warnings_format:
  "w \<in> set (snd (snd (transformType U t ty st))) \<Longrightarrow>
   w \<in> set (snd st) \<or> fst w = ''basic type %q is not defined in the mappings, ignoring''"
proof (induction U t ty st rule: transformType.induct)
  case (1 U t rep path name st)
  then show ?case by (simp split: option.splits)
next
  case (2 U t rep name st)
  then show ?case by (auto simp: report_Warn_def split: option.splits)
next
  case (3 U t rep key val st)
  obtain k st1 where k: "transformType U t key st = (k, st1)" by (cases "transformType U t key st")
  obtain v st2 where v: "transformType U t val st1 = (v, st2)" by (cases "transformType U t val st1")
  have "w \<in> set (snd st2)" using "3.prems" by (simp add: k v)
  then have "w \<in> set (snd st1) \<or> fst w = ''basic type %q is not defined in the mappings, ignoring''"
    using "3.IH"(2)[OF k[symmetric]] v by simp
  then show ?case using "3.IH"(1) k by auto
next
  case (4 U t st)
  then show ?case by simp
qed

text \<open>
  Claim C7 holds for the table and fails for the transformer. In both copies of
  the default table the types int8, int16, uint8, uint16 and byte map to the
  basic types int32, int32, uint32, uint32 and uint32, and in the first copy each
  entry carries the format of its upgrade warning. But \<^verbatim>\<open>transformType\<close> reports
  no warning other than the one for a basic type without a mapping (lemma
  \<open>transformType_warnings_format\<close>): the struct whose single field X has the type
  int8 is transformed to a message with a field of type int32 and nothing is
  reported.
\<close>

theorem widening_warning_not_reported:
  "map (\<lambda>n. map_option (\<lambda>p. (ProtoType.Name p, Basic p, Warn p)) (DefaultMappings (str n)))
      [''int8'', ''int16'', ''uint8'', ''uint16'', ''byte''] =
     [Some (str ''int32'', True, ''type %s was upgraded to int32''),
      Some (str ''int32'', True, ''type %s was upgraded to int32''),
      Some (str ''uint32'', True, ''type %s was upgraded to uint32''),
      Some (str ''uint32'', True, ''type %s was upgraded to uint32''),
      Some (str ''uint32'', True, ''type %s was upgraded to uint32'')] \<and>
   map (\<lambda>n. map_option (\<lambda>p. (ProtoType.Name p, Basic p, Warn p)) (DefaultMappings2 (str n)))
      [''int8'', ''int16'', ''uint8'', ''uint16'', ''byte''] =
     [Some (str ''int32'', True, []),
      Some (str ''int32'', True, []),
      Some (str ''uint32'', True, []),
      Some (str ''uint32'', True, []),
      Some (str ''uint32'', True, [])] \<and>
   transformStruct unicode_fragment NewTransformer
      \<lparr>scanner_Struct.Name = str ''S'',
       Fields = [\<lparr>scanner_Field.Name = str ''X'', Type = scanner_Basic False (str ''int8'')\<rparr>]\<rparr>
      (zeroPackage, []) =
     (\<lparr>Message.Name = str ''S'',
       Fields = [\<lparr>Field.Name = str ''x'', Pos = 1, Type = NewBasic (str ''int32''),
                  Repeated = False, Options = Map.empty\<rparr>],
       Reserved = []\<rparr>,
      (zeroPackage, []))"
  by (simp add: DefaultMappings_def DefaultMappings_list_def DefaultMappings2_def
      DefaultMappings2_list_def zeroProtoType_def transformStruct_def transformField_def
      findMapping_def NewTransformer_def fragment_snake_X ProtoType_Type_def Import_def)

section \<open>Collisions of wrapper names\<close>

text \<open>
  Claim C9. When the request or the response wrapper name of a function is
  already in the collision set, \<^verbatim>\<open>transformFunc\<close> yields no RPC and leaves the
  set, the package and the warnings as they are; in particular no message and no
  RPC is added to the package.
\<close>

theorem transformFunc_collision:
  "funcName f = Some name \<and>
   (name @ str ''Request'' \<in> names \<or> name @ str ''Response'' \<in> names) \<longrightarrow>
     transformFunc U t f names (pkg, ws) = (None, names, (pkg, ws)) \<and>
     Messages (fst (snd (snd (transformFunc U t f names (pkg, ws))))) = Messages pkg \<and>
     RPCs (fst (snd (snd (transformFunc U t f names (pkg, ws))))) = RPCs pkg"
  by (auto simp: transformFunc_def Let_def)

text \<open>
  The function DoFoo of the tests, with DoFooRequest registered, and with
  DoFooResponse registered.
\<close>

theorem transformFunc_collision_witness:
  "transformFunc unicode_fragment NewTransformer
      \<lparr>scanner_Func.Name = str ''DoFoo'', Receiver = None,
        Input = [scanner_Named False (str ''foo'') (str ''Bar''), scanner_Basic False (str ''int'')],
        Output = [scanner_Named False (str ''foo'') (str ''Foo''), scanner_Basic False (str ''bool''),
                scanner_Named False [] (str ''error'')]\<rparr>
      {str ''DoFooRequest''} (zeroPackage, []) =
     (None, {str ''DoFooRequest''}, (zeroPackage, [])) \<and>
   transformFunc unicode_fragment NewTransformer
      \<lparr>scanner_Func.Name = str ''DoFoo'', Receiver = None,
        Input = [scanner_Named False (str ''foo'') (str ''Bar''), scanner_Basic False (str ''int'')],
        Output = [scanner_Named False (str ''foo'') (str ''Foo''), scanner_Basic False (str ''bool''),
                scanner_Named False [] (str ''error'')]\<rparr>
      {str ''DoFooResponse''} (zeroPackage, []) =
     (None, {str ''DoFooResponse''}, (zeroPackage, []))"
proof -
  let ?f = "\<lparr>scanner_Func.Name = str ''DoFoo'', Receiver = None,
        Input = [scanner_Named False (str ''foo'') (str ''Bar''), scanner_Basic False (str ''int'')],
        Output = [scanner_Named False (str ''foo'') (str ''Foo''), scanner_Basic False (str ''bool''),
                scanner_Named False [] (str ''error'')]\<rparr>"
  have n: "funcName ?f = Some (str ''DoFoo'')" by simp
  have a: "str ''DoFoo'' @ str ''Request'' \<in> {str ''DoFooRequest''}"
    and b: "str ''DoFoo'' @ str ''Response'' \<in> {str ''DoFooResponse''}"
    by (simp_all add: str_append)
  show ?thesis
    using transformFunc_collision[of ?f "str ''DoFoo''" "{str ''DoFooRequest''}" unicode_fragment
        NewTransformer zeroPackage "[]"]
      transformFunc_collision[of ?f "str ''DoFoo''" "{str ''DoFooResponse''}" unicode_fragment
        NewTransformer zeroPackage "[]"] n a b
    by blast
qed

text \<open>
  Without a collision the same function (its second argument of type int32)
  gives the RPC, the two wrapper messages and the two registered names.
\<close>

lemma fragment_snake_arg1: "toLowerSnakeCase unicode_fragment (str ''arg'' @ decimal (Suc 0)) = str ''arg1''"
  by (simp add: toLowerSnakeCase_def str_def unicode_fragment_def runeWidth_def)
lemma fragment_snake_arg2: "toLowerSnakeCase unicode_fragment (str ''arg'' @ decimal (Suc (Suc 0))) = str ''arg2''"
  by (simp add: toLowerSnakeCase_def str_def unicode_fragment_def runeWidth_def)
lemma fragment_snake_result1: "toLowerSnakeCase unicode_fragment (str ''result'' @ decimal (Suc 0)) = str ''result1''"
  by (simp add: toLowerSnakeCase_def str_def unicode_fragment_def runeWidth_def)
lemma fragment_snake_result2: "toLowerSnakeCase unicode_fragment (str ''result'' @ decimal (Suc (Suc 0))) = str ''result2''"
  by (simp add: toLowerSnakeCase_def str_def unicode_fragment_def runeWidth_def)

lemma fragment_pkg_baz: "toProtobufPkg unicode_fragment (str ''baz'') = str ''baz''"
  by (simp add: toProtobufPkg_def pkgRune_def removeMn_def unicode_fragment_def fragment_NFD_def
      fragment_decompose_def str_def)

lemma findMapping_bool:
  "findMapping NewTransformer (str ''bool'') =
     Some (zeroProtoType\<lparr>ProtoType.Name := str ''bool'', Basic := True\<rparr>)"
  by (simp add: findMapping_def NewTransformer_def DefaultMappings_def DefaultMappings_list_def)

lemma findMapping_foo_Bar: "findMapping NewTransformer (Named_String (str ''foo'') (str ''Bar'')) = None"
  by (simp add: findMapping_def NewTransformer_def DefaultMappings_foo_Bar)

lemma findMapping_foo_Foo: "findMapping NewTransformer (Named_String (str ''foo'') (str ''Foo'')) = None"
  by (simp add: findMapping_def NewTransformer_def DefaultMappings_def DefaultMappings_list_def
      Named_String_def str_append)

lemma DoFoo_request:
  "createMessageFromTypes unicode_fragment NewTransformer (str ''DoFooRequest'')
      [scanner_Named False (str ''foo'') (str ''Bar''), scanner_Basic False (str ''int32'')] ''arg''
      (zeroPackage\<lparr>Package.Path := str ''baz''\<rparr>, []) =
    (\<lparr>Message.Name = str ''DoFooRequest'',
              Fields = [\<lparr>Field.Name = str ''arg1'', Pos = 1, Type = NewNamed (str ''foo'') (str ''Bar''),
                         Repeated = False, Options = Map.empty\<rparr>,
                        \<lparr>Field.Name = str ''arg2'', Pos = 2, Type = NewBasic (str ''int32''),
                         Repeated = False, Options = Map.empty\<rparr>],
              Reserved = []\<rparr>,
     (zeroPackage\<lparr>Package.Path := str ''baz'', Imports := [str ''foo/generated.proto'']\<rparr>, []))"
  by (simp add: createMessageFromTypes_def transformStruct_def transformField_def
      findMapping_foo_Bar findMapping_int32 fragment_snake_arg1 fragment_snake_arg2 fragment_pkg_foo
      ImportFromPath_def generatedFile_def str_append zeroPackage_def Import_def ProtoType_Type_def
      zeroProtoType_def numeral_2_eq_2 del: decimal.simps)


lemma DoFoo_response:
  "createMessageFromTypes unicode_fragment NewTransformer (str ''DoFooResponse'')
      [scanner_Named False (str ''foo'') (str ''Foo''), scanner_Basic False (str ''bool'')] ''result''
      (zeroPackage\<lparr>Package.Path := str ''baz'', Imports := [str ''foo/generated.proto'']\<rparr>, []) =
    (\<lparr>Message.Name = str ''DoFooResponse'',
              Fields = [\<lparr>Field.Name = str ''result1'', Pos = 1, Type = NewNamed (str ''foo'') (str ''Foo''),
                         Repeated = False, Options = Map.empty\<rparr>,
                        \<lparr>Field.Name = str ''result2'', Pos = 2, Type = NewBasic (str ''bool''),
                         Repeated = False, Options = Map.empty\<rparr>],
              Reserved = []\<rparr>,
     (zeroPackage\<lparr>Package.Path := str ''baz'', Imports := [str ''foo/generated.proto'']\<rparr>, []))"
  by (simp add: createMessageFromTypes_def transformStruct_def transformField_def
      findMapping_foo_Foo findMapping_bool fragment_snake_result1 fragment_snake_result2 fragment_pkg_foo
      ImportFromPath_def generatedFile_def str_append zeroPackage_def Import_def ProtoType_Type_def
      zeroProtoType_def numeral_2_eq_2 del: decimal.simps)

lemma transformFunc_DoFoo:
  "transformFunc unicode_fragment NewTransformer
      \<lparr>scanner_Func.Name = str ''DoFoo'', Receiver = None,
        Input = [scanner_Named False (str ''foo'') (str ''Bar''), scanner_Basic False (str ''int32'')],
        Output = [scanner_Named False (str ''foo'') (str ''Foo''), scanner_Basic False (str ''bool''),
                scanner_Named False [] (str ''error'')]\<rparr>
      {} (zeroPackage\<lparr>Package.Path := str ''baz''\<rparr>, []) =
     (Some \<lparr>RPC.Name = str ''DoFoo'',
             Input = NewGeneratedNamed (str ''baz'') (str ''DoFooRequest''),
             Output = NewGeneratedNamed (str ''baz'') (str ''DoFooResponse'')\<rparr>,
      {str ''DoFooResponse'', str ''DoFooRequest''},
      (zeroPackage\<lparr>Package.Path := str ''baz'',
         Imports := [str ''foo/generated.proto''],
         Messages :=
           [\<lparr>Message.Name = str ''DoFooRequest'',
              Fields = [\<lparr>Field.Name = str ''arg1'', Pos = 1, Type = NewNamed (str ''foo'') (str ''Bar''),
                         Repeated = False, Options = Map.empty\<rparr>,
                        \<lparr>Field.Name = str ''arg2'', Pos = 2, Type = NewBasic (str ''int32''),
                         Repeated = False, Options = Map.empty\<rparr>],
              Reserved = []\<rparr>,
            \<lparr>Message.Name = str ''DoFooResponse'',
              Fields = [\<lparr>Field.Name = str ''result1'', Pos = 1, Type = NewNamed (str ''foo'') (str ''Foo''),
                         Repeated = False, Options = Map.empty\<rparr>,
                        \<lparr>Field.Name = str ''result2'', Pos = 2, Type = NewBasic (str ''bool''),
                         Repeated = False, Options = Map.empty\<rparr>],
              Reserved = []\<rparr>],
         RPCs := [\<lparr>RPC.Name = str ''DoFoo'',
             Input = NewGeneratedNamed (str ''baz'') (str ''DoFooRequest''),
             Output = NewGeneratedNamed (str ''baz'') (str ''DoFooResponse'')\<rparr>]\<rparr>, []))"
proof -
  have sel: "Messages zeroPackage = []" "RPCs zeroPackage = []"
    by (simp_all add: zeroPackage_def)
  show ?thesis
    by (simp add: transformFunc_def removeLastError_def str_append DoFoo_request DoFoo_response
        fragment_pkg_baz addMessage_def registerName_def Let_def sel)
qed

section \<open>Package paths\<close>

lemma pkgRune_idem: "pkgRune U (pkgRune U r) = pkgRune U r"
  by (simp add: pkgRune_def)

lemma kept_steps12: "list_all (kept U) (filter (\<lambda>r. r \<noteq> of_char CHR '' '') (map (pkgRune U) s))"
  by (induction s) (simp_all add: kept_def pkgRune_idem)

lemma steps12_kept:
  "list_all (kept U) q \<Longrightarrow> filter (\<lambda>r. r \<noteq> of_char CHR '' '') (map (pkgRune U) q) = q"
  by (induction q) (simp_all add: kept_def)

lemma removeMn_idem: "removeMn U (removeMn U s) = removeMn U s"
  by (simp add: removeMn_def)

lemma toProtobufPkg_idem:
  assumes "norm_contract U"
  shows "toProtobufPkg U (toProtobufPkg U s) = toProtobufPkg U s"
proof -
  let ?p = "filter (\<lambda>r. r \<noteq> of_char CHR '' '') (map (pkgRune U) s)"
  let ?d = "removeMn U (NFD U ?p)"
  let ?q = "NFC U ?d"
  have n1: "NFD U (NFC U y) = NFD U y" for y
    using assms by (simp add: norm_contract_def)
  have n3: "NFD U (removeMn U (NFD U x)) = removeMn U (NFD U x)" if "list_all (kept U) x" for x
    using assms that by (simp add: norm_contract_def)
  have n4: "list_all (kept U) (NFC U (removeMn U (NFD U x)))" if "list_all (kept U) x" for x
    using assms that by (simp add: norm_contract_def)
  have p: "list_all (kept U) ?p" by (rule kept_steps12)
  have q: "toProtobufPkg U s = ?q" by (simp only: toProtobufPkg_def Let_def)
  have kq: "list_all (kept U) ?q" using n4[OF p] .
  have "toProtobufPkg U ?q = NFC U (removeMn U (NFD U ?q))"
    by (simp only: toProtobufPkg_def Let_def steps12_kept[OF kq])
  also have "NFD U ?q = ?d" using n1[of ?d] n3[OF p] by simp
  also have "removeMn U ?d = ?d" by (rule removeMn_idem)
  finally show ?thesis using q by simp
qed

lemma fragment_NFD_no_composites: "242 \<notin> set (fragment_NFD y) \<and> 243 \<notin> set (fragment_NFD y)"
  by (induction y) (simp_all add: fragment_NFD_def fragment_decompose_def)

lemma fragment_NFD_compose:
  "242 \<notin> set z \<Longrightarrow> 243 \<notin> set z \<Longrightarrow> fragment_NFD (fragment_compose z) = z"
  by (induction z rule: fragment_compose.induct)
    (auto simp: fragment_NFD_def fragment_decompose_def)

lemma fragment_NFD_id: "242 \<notin> set z \<Longrightarrow> 243 \<notin> set z \<Longrightarrow> fragment_NFD z = z"
  by (induction z) (auto simp: fragment_NFD_def fragment_decompose_def)

lemma fragment_compose_id: "768 \<notin> set z \<Longrightarrow> 769 \<notin> set z \<Longrightarrow> fragment_compose z = z"
  by (induction z rule: fragment_compose.induct) auto

lemma fragment_removeMn_set:
  "set (removeMn unicode_fragment z) = set z - {768, 769}"
  by (auto simp: removeMn_def unicode_fragment_def)

lemma fragment_kept_NFD:
  "list_all (kept unicode_fragment) x \<Longrightarrow>
   list_all (kept unicode_fragment) (removeMn unicode_fragment (fragment_NFD x))"
  by (induction x)
    (auto simp: fragment_NFD_def fragment_decompose_def removeMn_def kept_def pkgRune_def
      unicode_fragment_def)

lemma fragment_norm_contract: "norm_contract unicode_fragment"
proof -
  have sel: "NFD unicode_fragment = fragment_NFD"
    "NFC unicode_fragment = (\<lambda>s. fragment_compose (fragment_NFD s))"
    by (simp_all add: unicode_fragment_def)
  have n1: "fragment_NFD (fragment_compose (fragment_NFD y)) = fragment_NFD y" for y
    using fragment_NFD_no_composites[of y] by (simp add: fragment_NFD_compose)
  have nc: "242 \<notin> set (removeMn unicode_fragment (fragment_NFD x))"
       "243 \<notin> set (removeMn unicode_fragment (fragment_NFD x))" for x
    using fragment_NFD_no_composites[of x] by (simp_all add: fragment_removeMn_set)
  have n3: "fragment_NFD (removeMn unicode_fragment (fragment_NFD x))
              = removeMn unicode_fragment (fragment_NFD x)" for x
    using nc[of x] by (simp add: fragment_NFD_id)
  have n4: "list_all (kept unicode_fragment)
              (fragment_compose (fragment_NFD (removeMn unicode_fragment (fragment_NFD x))))"
    if "list_all (kept unicode_fragment) x" for x
  proof -
    have "fragment_compose (removeMn unicode_fragment (fragment_NFD x))
            = removeMn unicode_fragment (fragment_NFD x)"
      by (rule fragment_compose_id) (simp_all add: fragment_removeMn_set)
    then show ?thesis using fragment_kept_NFD[OF that] by (simp add: n3)
  qed
  show ?thesis
    unfolding norm_contract_def sel using n1 n3 n4 by blast
qed

lemma fragment_pkg_accented:
  "toProtobufPkg unicode_fragment (str ''github.c'' @ [243] @ str ''m/f'' @ [242] @ str ''o/bar'')
     = str ''github.com.foo.bar''"
  by (simp add: toProtobufPkg_def pkgRune_def removeMn_def unicode_fragment_def fragment_NFD_def
      fragment_decompose_def str_def)

lemma fragment_pkg_gopkg:
  "toProtobufPkg unicode_fragment (str ''gopkg.in/go-foo/foo.v1'') = str ''gopkg.in.gofoo.foo.v1''"
  by (simp add: toProtobufPkg_def pkgRune_def removeMn_def unicode_fragment_def fragment_NFD_def
      fragment_decompose_def str_def)

text \<open>
  Claim C8. For every string, and for every normalisation library that meets
  \<open>norm_contract\<close>, applying \<^verbatim>\<open>toProtobufPkg\<close> to its own result gives that result
  again; the Latin fragment is such a library. On the fragment, net/url gives
  net.url, github.com/foo/bar gives github.com.foo.bar, and the path of the
  tests written with o acute and o grave (the runes 243 and 242) gives
  github.com.foo.bar as well.
\<close>

theorem toProtobufPkg_idempotent:
  "(norm_contract U \<longrightarrow> toProtobufPkg U (toProtobufPkg U s) = toProtobufPkg U s) \<and>
   toProtobufPkg unicode_fragment (toProtobufPkg unicode_fragment s) = toProtobufPkg unicode_fragment s \<and>
   toProtobufPkg unicode_fragment (str ''net/url'') = str ''net.url'' \<and>
   toProtobufPkg unicode_fragment (str ''github.com/foo/bar'') = str ''github.com.foo.bar'' \<and>
   toProtobufPkg unicode_fragment (str ''github.c'' @ [243] @ str ''m/f'' @ [242] @ str ''o/bar'')
     = str ''github.com.foo.bar''"
  using toProtobufPkg_idem[of U s] toProtobufPkg_idem[OF fragment_norm_contract, of s]
    fragment_pkg_net_url fragment_pkg_github fragment_pkg_accented
  by (intro conjI impI)

text \<open>The fragment meets the contract; the accented path of the tests.\<close>

theorem toProtobufPkg_idempotent_witness:
  "norm_contract unicode_fragment \<and>
   toProtobufPkg unicode_fragment (toProtobufPkg unicode_fragment
       (str ''github.c'' @ [243] @ str ''m/f'' @ [242] @ str ''o/bar''))
     = str ''github.com.foo.bar''"
proof -
  have "toProtobufPkg unicode_fragment (toProtobufPkg unicode_fragment
       (str ''github.c'' @ [243] @ str ''m/f'' @ [242] @ str ''o/bar''))
     = toProtobufPkg unicode_fragment (str ''github.c'' @ [243] @ str ''m/f'' @ [242] @ str ''o/bar'')"
    using toProtobufPkg_idempotent[of unicode_fragment
        "str ''github.c'' @ [243] @ str ''m/f'' @ [242] @ str ''o/bar''"]
      fragment_norm_contract by blast
  then show ?thesis
    using fragment_norm_contract by (simp only: fragment_pkg_accented)
qed

end
